theory Spec2Isabelle
  imports Main
begin

section \<open>The request controller of docker-fpm\<close>

text \<open>
  A shallow embedding of \<^verbatim>\<open>pkg/fpm/controller.go\<close> and of the methods of the Docker client
  wrapper (\<^verbatim>\<open>package docker\<close>) that the controller calls.

  Conventions of the model.
  \<^item> Go \<^verbatim>\<open>int\<close> is modelled as \<open>int\<close>. The only arithmetic on it is the increment of
    \<^verbatim>\<open>ContainerNo\<close> and of the two loop counters, which stay below \<open>2^63\<close> for every
    \<^verbatim>\<open>ContainerAmount\<close> smaller than the largest 64-bit integer.
  \<^item> A Go \<^verbatim>\<open>error\<close> is a value of the datatype \<open>error\<close>; a function returning
    \<^verbatim>\<open>error\<close> returns \<open>error option\<close>, one returning \<^verbatim>\<open>(T, error)\<close> returns \<open>error + T\<close>.
  \<^item> The Docker daemon is outside the program. It is a parameter \<open>d\<close> of every operation that
    talks to it: six functions, one for each SDK call the wrapper makes, each of which sees
    the requests received so far (so a daemon may answer the same request differently at
    different times). The requests sent so far are part of the controller's state.
  \<^item> The methods have a pointer receiver and mutate it also when they return an error, so
    each is a function from the state to the returned error and the new state.
  \<^item> The mutex and the field \<^verbatim>\<open>LastReq\<close> (never read or written after construction) are
    left out: the model is of one thread of execution.
\<close>

subsection \<open>Data\<close>

datatype error = Err string | Wrap error string

record ControllerConfig =
  Deployment :: string
  ContainerImage :: string
  ContainerImageTag :: string
  ContainerPort :: int
  ContainerAmount :: int
  Type :: string
  DynIdleSeconds :: int

record Container =
  Name :: string
  Id' :: string
  Started :: bool
  Dirty :: bool
  IPAddr :: string

text \<open>A request sent to the daemon through the SDK.\<close>

datatype call =
    CreateReq string string string
  | StartReq string
  | InspectReq string
  | StopReq string
  | KillReq string
  | RemoveReq string

text \<open>
  The daemon: what each SDK call answers, given the requests made before it.
  \<open>ContainerCreate\<close> takes the name, the image and the deployment label and answers with the id
  of the new container; \<open>ContainerInspect\<close> answers with \<^verbatim>\<open>NetworkSettings.IPAddress\<close>, the only
  part of the details the controller reads.
\<close>

record daemon =
  ContainerCreate :: "call list \<Rightarrow> string \<Rightarrow> string \<Rightarrow> string \<Rightarrow> error + string"
  ContainerStart :: "call list \<Rightarrow> string \<Rightarrow> error option"
  ContainerInspect :: "call list \<Rightarrow> string \<Rightarrow> error + string"
  ContainerStop :: "call list \<Rightarrow> string \<Rightarrow> error option"
  ContainerKill :: "call list \<Rightarrow> string \<Rightarrow> error option"
  ContainerRemove :: "call list \<Rightarrow> string \<Rightarrow> error option"

text \<open>
  The controller. \<open>DockerCli\<close> stands for the client handle: the list of the requests that went
  through it, oldest first.
\<close>

record ReqController =
  DockerCli :: "call list"
  Config :: ControllerConfig
  Containers :: "Container list"
  ContainerNo :: int

definition DynamicController :: string where
  "DynamicController = ''dynamic''"

definition StaticController :: string where
  "StaticController = ''static''"

definition controllerTypes :: "string list" where
  "controllerTypes = [DynamicController, StaticController]"

subsection \<open>Formatting\<close>

text \<open>The verb \<^verbatim>\<open>%d\<close> of \<^verbatim>\<open>fmt.Sprintf\<close>: decimal digits, with a minus sign below zero.\<close>

definition digit_char :: "nat \<Rightarrow> char" where
  "digit_char n = ''0123456789'' ! n"

function string_of_nat :: "nat \<Rightarrow> string" where
  "string_of_nat n =
     (if n < 10 then [digit_char n] else string_of_nat (n div 10) @ [digit_char (n mod 10)])"
  by pat_completeness auto
termination
  by (relation "measure (\<lambda>n. n)") auto

declare string_of_nat.simps [simp del]

definition itoa :: "int \<Rightarrow> string" where
  "itoa i = (if i < 0 then CHR ''-'' # string_of_nat (nat (- i)) else string_of_nat (nat i))"

subsection \<open>The Docker client wrapper\<close>

definition CreateContainer ::
  "daemon \<Rightarrow> string \<Rightarrow> string \<Rightarrow> string \<Rightarrow> call list \<Rightarrow> (error + string) \<times> call list" where
  "CreateContainer d name img deployment t =
     (case ContainerCreate d t name img deployment of
        Inl err \<Rightarrow> (Inl (Wrap err ''Unable to create a new container''),
                    t @ [CreateReq name img deployment])
      | Inr cid \<Rightarrow> (Inr cid, t @ [CreateReq name img deployment]))"

definition StartContainer :: "daemon \<Rightarrow> string \<Rightarrow> call list \<Rightarrow> error option \<times> call list" where
  "StartContainer d cid t =
     (case ContainerStart d t cid of
        Some err \<Rightarrow> (Some (Wrap err (''Unable to start container '' @ cid)), t @ [StartReq cid])
      | None \<Rightarrow> (None, t @ [StartReq cid]))"

definition ContainerDetails :: "daemon \<Rightarrow> string \<Rightarrow> call list \<Rightarrow> (error + string) \<times> call list" where
  "ContainerDetails d cid t =
     (case ContainerInspect d t cid of
        Inl err \<Rightarrow> (Inl (Wrap err (''Unable to fetch details for container '' @ cid)),
                    t @ [InspectReq cid])
      | Inr details \<Rightarrow> (Inr details, t @ [InspectReq cid]))"

definition StopContainer :: "daemon \<Rightarrow> string \<Rightarrow> call list \<Rightarrow> error option \<times> call list" where
  "StopContainer d cid t =
     (case ContainerStop d t cid of
        Some err \<Rightarrow> (Some (Wrap err (''Unable to stop container '' @ cid)), t @ [StopReq cid])
      | None \<Rightarrow> (None, t @ [StopReq cid]))"

definition KillContainer :: "daemon \<Rightarrow> string \<Rightarrow> call list \<Rightarrow> error option \<times> call list" where
  "KillContainer d cid t =
     (case ContainerKill d t cid of
        Some err \<Rightarrow> (Some (Wrap err (''Unable to kill container '' @ cid)), t @ [KillReq cid])
      | None \<Rightarrow> (None, t @ [KillReq cid]))"

definition RemoveContainer :: "daemon \<Rightarrow> string \<Rightarrow> call list \<Rightarrow> error option \<times> call list" where
  "RemoveContainer d cid t =
     (case ContainerRemove d t cid of
        Some err \<Rightarrow> (Some (Wrap err (''Unable to remove container '' @ cid)), t @ [RemoveReq cid])
      | None \<Rightarrow> (None, t @ [RemoveReq cid]))"

subsection \<open>Construction and provisioning\<close>

definition validControllerType :: "string \<Rightarrow> bool" where
  "validControllerType c = (c \<in> set controllerTypes)"

text \<open>
  \<open>NewReqController\<close>: the first argument is what \<^verbatim>\<open>docker.NewClient()\<close> returned (\<open>None\<close> when it
  gave a client).
\<close>

definition NewReqController :: "error option \<Rightarrow> ControllerConfig \<Rightarrow> error + ReqController" where
  "NewReqController newClient conf =
     (if \<not> validControllerType (Type conf)
      then Inl (Err (''Invalid controller type: '' @ Type conf))
      else case newClient of
             Some err \<Rightarrow> Inl (Wrap err ''Unable to initialize Docker client'')
           | None \<Rightarrow> Inr \<lparr>DockerCli = [], Config = conf, Containers = [], ContainerNo = 0\<rparr>)"

definition containerImageName :: "ReqController \<Rightarrow> string" where
  "containerImageName s = ContainerImage (Config s) @ '':'' @ ContainerImageTag (Config s)"

definition createNewContainer :: "daemon \<Rightarrow> ReqController \<Rightarrow> error option \<times> ReqController" where
  "createNewContainer d s =
     (let s1 = s\<lparr>ContainerNo := ContainerNo s + 1\<rparr>;
          cName = Deployment (Config s1) @ ''-'' @ itoa (ContainerNo s1)
      in case CreateContainer d cName (containerImageName s1) (Deployment (Config s1))
                (DockerCli s1) of
           (Inl err, t) \<Rightarrow> (Some err, s1\<lparr>DockerCli := t\<rparr>)
         | (Inr c, t) \<Rightarrow>
             (None, s1\<lparr>DockerCli := t,
                       Containers := Containers s1 @
                         [\<lparr>Name = cName, Id' = c, Started = False, Dirty = False,
                           IPAddr = ''''\<rparr>]\<rparr>))"

subsection \<open>Starting, stopping, cleaning up\<close>

text \<open>
  The loops \<^verbatim>\<open>for i, c := range s.Containers\<close> visit the entries in order; \<open>c\<close> is a copy of
  entry \<open>i\<close>, and the only write is \<^verbatim>\<open>s.Containers[i] = c\<close>, to the entry being visited. So each
  loop is a recursion over the list that rebuilds it entry by entry; on an early return the
  entry being visited and the ones after it are as they were.
\<close>

fun startContainers_loop ::
  "daemon \<Rightarrow> Container list \<Rightarrow> call list \<Rightarrow> error option \<times> Container list \<times> call list" where
  "startContainers_loop d [] t = (None, [], t)"
| "startContainers_loop d (c # cs) t =
     (if Started c
      then (case startContainers_loop d cs t of (r, cs', t') \<Rightarrow> (r, c # cs', t'))
      else case StartContainer d (Id' c) t of
             (Some err, t1) \<Rightarrow> (Some err, c # cs, t1)
           | (None, t1) \<Rightarrow>
               (case ContainerDetails d (Id' c) t1 of
                  (Inl err, t2) \<Rightarrow> (Some err, c # cs, t2)
                | (Inr details, t2) \<Rightarrow>
                    (case startContainers_loop d cs t2 of
                       (r, cs', t') \<Rightarrow> (r, c\<lparr>IPAddr := details, Started := True\<rparr> # cs', t'))))"

definition startContainers :: "daemon \<Rightarrow> ReqController \<Rightarrow> error option \<times> ReqController" where
  "startContainers d s =
     (case startContainers_loop d (Containers s) (DockerCli s) of
        (r, cs, t) \<Rightarrow> (r, s\<lparr>Containers := cs, DockerCli := t\<rparr>))"

fun stopContainers_loop ::
  "daemon \<Rightarrow> bool \<Rightarrow> Container list \<Rightarrow> call list \<Rightarrow> error option \<times> Container list \<times> call list"
  where
  "stopContainers_loop d hard [] t = (None, [], t)"
| "stopContainers_loop d hard (c # cs) t =
     (if \<not> Started c
      then (case stopContainers_loop d hard cs t of (r, cs', t') \<Rightarrow> (r, c # cs', t'))
      else case StopContainer d (Id' c) t of
             (Some err, t1) \<Rightarrow>
               (if \<not> hard then (Some err, c # cs, t1)
                else case KillContainer d (Id' c) t1 of
                       (Some err', t2) \<Rightarrow> (Some err', c # cs, t2)
                     | (None, t2) \<Rightarrow>
                         (case stopContainers_loop d hard cs t2 of
                            (r, cs', t') \<Rightarrow> (r, c\<lparr>Started := False, IPAddr := ''''\<rparr> # cs', t')))
           | (None, t1) \<Rightarrow>
               (case stopContainers_loop d hard cs t1 of
                  (r, cs', t') \<Rightarrow> (r, c\<lparr>Started := False, IPAddr := ''''\<rparr> # cs', t')))"

definition stopContainers ::
  "daemon \<Rightarrow> bool \<Rightarrow> ReqController \<Rightarrow> error option \<times> ReqController" where
  "stopContainers d hard s =
     (case stopContainers_loop d hard (Containers s) (DockerCli s) of
        (r, cs, t) \<Rightarrow> (r, s\<lparr>Containers := cs, DockerCli := t\<rparr>))"

fun cleanupContainers_loop ::
  "daemon \<Rightarrow> Container list \<Rightarrow> call list \<Rightarrow> error option \<times> call list" where
  "cleanupContainers_loop d [] t = (None, t)"
| "cleanupContainers_loop d (c # cs) t =
     (case (if Started c then KillContainer d (Id' c) t else (None, t)) of
        (Some err, t1) \<Rightarrow> (Some err, t1)
      | (None, t1) \<Rightarrow>
          (case RemoveContainer d (Id' c) t1 of
             (Some err, t2) \<Rightarrow> (Some err, t2)
           | (None, t2) \<Rightarrow> cleanupContainers_loop d cs t2))"

definition cleanupContainers :: "daemon \<Rightarrow> ReqController \<Rightarrow> error option \<times> ReqController" where
  "cleanupContainers d s =
     (case cleanupContainers_loop d (Containers s) (DockerCli s) of
        (r, t) \<Rightarrow> (r, s\<lparr>DockerCli := t\<rparr>))"

subsection \<open>Selection\<close>

text \<open>
  The pseudo-random source of \<^verbatim>\<open>math/rand\<close> is a sequence of raw draws; \<open>Intn g n\<close> reduces the
  next draw to the range \<open>0 ..< n\<close> and returns the rest of the sequence. Every sequence of
  indices below \<open>n\<close> is the sequence of results of some source.
\<close>

type_synonym rand = "nat \<Rightarrow> nat"

definition Intn :: "rand \<Rightarrow> nat \<Rightarrow> nat \<times> rand" where
  "Intn g n = (g 0 mod n, \<lambda>k. g (Suc k))"

text \<open>
  The first loop of \<open>getRandomContainer\<close>: \<open>limit\<close> is \<^verbatim>\<open>s.Config.ContainerAmount\<close>, and
  \<open>length cs\<close> is \<^verbatim>\<open>amount\<close>, which is not zero where the loop is reached.
\<close>

function getRandomContainer_probe ::
  "Container list \<Rightarrow> int \<Rightarrow> int \<Rightarrow> rand \<Rightarrow> Container option \<times> rand" where
  "getRandomContainer_probe cs limit attempts g =
     (if attempts \<le> limit
      then (case Intn g (length cs) of
              (random, g') \<Rightarrow>
                (let candidate = cs ! random
                 in if \<not> Dirty candidate \<and> Started candidate then (Some candidate, g')
                    else getRandomContainer_probe cs limit (attempts + 1) g'))
      else (None, g))"
  by pat_completeness auto
termination
  by (relation "measure (\<lambda>(cs, limit, attempts, g). nat (limit + 1 - attempts))") auto

declare getRandomContainer_probe.simps [simp del]

definition getRandomContainer :: "rand \<Rightarrow> ReqController \<Rightarrow> (error + Container) \<times> rand" where
  "getRandomContainer g s =
     (let amount = length (Containers s)
      in if amount = 0 then (Inl (Err ''No configured containers to choose from''), g)
         else case getRandomContainer_probe (Containers s) (ContainerAmount (Config s)) 1 g of
                (Some candidate, g') \<Rightarrow> (Inr candidate, g')
              | (None, g') \<Rightarrow>
                  (case find (\<lambda>candidate. \<not> Dirty candidate \<and> Started candidate)
                          (Containers s) of
                     Some candidate \<Rightarrow> (Inr candidate, g')
                   | None \<Rightarrow>
                       (Inl (Err ''All containers are either shut down or marked as dirty''),
                        g')))"

definition setContainerDirty :: "string \<Rightarrow> ReqController \<Rightarrow> ReqController" where
  "setContainerDirty cid s =
     s\<lparr>Containers := map (\<lambda>c. if Id' c = cid then c\<lparr>Dirty := True\<rparr> else c) (Containers s)\<rparr>"

text \<open>
  \<open>Init\<close>: the creation loop \<^verbatim>\<open>for i := 0; i < s.Config.ContainerAmount; i++\<close>, then the eager
  start in static mode. (Seeding the random source has no part in the model: the source is a
  parameter of the selection.)
\<close>

function Init_loop :: "daemon \<Rightarrow> int \<Rightarrow> ReqController \<Rightarrow> error option \<times> ReqController" where
  "Init_loop d i s =
     (if i < ContainerAmount (Config s)
      then (case createNewContainer d s of
              (Some err, s') \<Rightarrow> (Some err, s')
            | (None, s') \<Rightarrow> Init_loop d (i + 1) s')
      else (None, s))"
  by pat_completeness auto
termination
  by (relation "measure (\<lambda>(d, i, s). nat (ContainerAmount (Config s) - i))")
     (auto simp: createNewContainer_def Let_def split: prod.splits sum.splits)

declare Init_loop.simps [simp del]

definition Init :: "daemon \<Rightarrow> ReqController \<Rightarrow> error option \<times> ReqController" where
  "Init d s =
     (case Init_loop d 0 s of
        (Some err, s1) \<Rightarrow> (Some err, s1)
      | (None, s1) \<Rightarrow>
          (if Type (Config s1) = StaticController
           then (case startContainers d s1 of
                   (Some err, s2) \<Rightarrow> (Some err, s2)
                 | (None, s2) \<Rightarrow> (None, s2))
           else (None, s1)))"

definition Close :: "daemon \<Rightarrow> ReqController \<Rightarrow> error option \<times> ReqController" where
  "Close d s =
     (case cleanupContainers d s of
        (Some err, s') \<Rightarrow> (Some (Wrap err ''Unable to cleanup containers''), s')
      | (None, s') \<Rightarrow> (None, s'))"

subsection \<open>The request handler\<close>

text \<open>
  \<^verbatim>\<open>http.Header\<close> is a map from keys to lists of values. It is modelled as the list of its
  entries, in the order in which a \<^verbatim>\<open>range\<close> loop visits them (any order). \<open>Values h k\<close> is
  \<^verbatim>\<open>h[k]\<close>, the empty list for a missing key. \<open>Add\<close> is \<^verbatim>\<open>Header.Add\<close> of the standard library:
  it appends the value to the list under the canonical form of the key. The canonical form is
  a function of the standard library, \<^verbatim>\<open>textproto.CanonicalMIMEHeaderKey\<close>, and a parameter
  here.
\<close>

type_synonym Header = "(string \<times> string list) list"

definition Values :: "Header \<Rightarrow> string \<Rightarrow> string list" where
  "Values h k = (case map_of h k of None \<Rightarrow> [] | Some vv \<Rightarrow> vv)"

fun append_value :: "string \<Rightarrow> string \<Rightarrow> Header \<Rightarrow> Header" where
  "append_value k v [] = [(k, [v])]"
| "append_value k v ((k', vv) # h) =
     (if k' = k then (k', vv @ [v]) # h else (k', vv) # append_value k v h)"

definition Add :: "(string \<Rightarrow> string) \<Rightarrow> Header \<Rightarrow> string \<Rightarrow> string \<Rightarrow> Header" where
  "Add canon h k v = append_value (canon k) v h"

record URL =
  Scheme :: string
  Host :: string
  Path :: string
  RawQuery :: string

record Request =
  Method :: string
  ReqURL :: URL
  ReqHeader :: Header
  ReqBody :: string

record Response =
  StatusCode :: int
  ResHeader :: Header
  ResBody :: string

text \<open>
  The response writer: its header map, the status written (none yet on the writer the server
  hands to the handler) and the body written. The first \<open>WriteHeader\<close> decides the status;
  \<open>Write\<close> writes status 200 first when none was written.
\<close>

record ResponseWriter =
  wHeader :: Header
  wStatus :: "int option"
  wBody :: string

definition WriteHeader :: "int \<Rightarrow> ResponseWriter \<Rightarrow> ResponseWriter" where
  "WriteHeader code w = (if wStatus w = None then w\<lparr>wStatus := Some code\<rparr> else w)"

definition Write :: "string \<Rightarrow> ResponseWriter \<Rightarrow> ResponseWriter" where
  "Write b w = (let w1 = WriteHeader 200 w in w1\<lparr>wBody := wBody w1 @ b\<rparr>)"

definition StatusInternalServerError :: int where
  "StatusInternalServerError = 500"

definition StatusBadGateway :: int where
  "StatusBadGateway = 502"

text \<open>
  The network side of the standard library, as far as the handler uses it: the canonical form
  of a header key, \<^verbatim>\<open>http.NewRequest\<close> (which can refuse a method or a URL) and
  \<^verbatim>\<open>http.Client.Do\<close>.
\<close>

record net =
  CanonicalMIMEHeaderKey :: "string \<Rightarrow> string"
  NewRequest :: "string \<Rightarrow> URL \<Rightarrow> string \<Rightarrow> error + Request"
  Do :: "Request \<Rightarrow> error + Response"

fun copyHeader_values :: "(string \<Rightarrow> string) \<Rightarrow> Header \<Rightarrow> string \<Rightarrow> string list \<Rightarrow> Header" where
  "copyHeader_values canon dst k [] = dst"
| "copyHeader_values canon dst k (v # vv) = copyHeader_values canon (Add canon dst k v) k vv"

fun copyHeader :: "(string \<Rightarrow> string) \<Rightarrow> Header \<Rightarrow> Header \<Rightarrow> Header" where
  "copyHeader canon dst [] = dst"
| "copyHeader canon dst ((k, vv) # src) = copyHeader canon (copyHeader_values canon dst k vv) src"

text \<open>
  The result of handling a request: the handler panics (an index out of range), or it returns
  with the response written, the controller and the random source as it left them.
\<close>

datatype outcome = Panic | Responded ResponseWriter ReqController rand

text \<open>The handler from \<^verbatim>\<open>s.Lock.RLock()\<close> on: selection, the proxied request, the response.\<close>

definition ServeHTTP_proxy ::
  "net \<Rightarrow> rand \<Rightarrow> ResponseWriter \<Rightarrow> Request \<Rightarrow> ReqController \<Rightarrow> outcome" where
  "ServeHTTP_proxy n g w r s =
     (case getRandomContainer g s of
        (Inl err, g') \<Rightarrow> Responded (WriteHeader StatusInternalServerError w) s g'
      | (Inr chosen, g') \<Rightarrow>
          (let url = (ReqURL r)\<lparr>Host := IPAddr chosen @ '':'' @ itoa (ContainerPort (Config s))\<rparr>
           in case NewRequest n (Method r) url (ReqBody r) of
                Inl err \<Rightarrow> Responded (WriteHeader StatusInternalServerError w) s g'
              | Inr proxyReq \<Rightarrow>
                  (case Do n (proxyReq\<lparr>ReqHeader := ReqHeader r\<rparr>) of
                     Inl err \<Rightarrow>
                       Responded (WriteHeader StatusBadGateway w)
                         (setContainerDirty (Id' chosen) s) g'
                   | Inr res \<Rightarrow>
                       Responded
                         (Write (ResBody res)
                            (WriteHeader (StatusCode res)
                               (w\<lparr>wHeader :=
                                    copyHeader (CanonicalMIMEHeaderKey n) (wHeader w)
                                      (ResHeader res)\<rparr>)))
                         s g')))"

text \<open>
  The first step of the handler, up to \<^verbatim>\<open>s.Lock.RLock()\<close>. \<^verbatim>\<open>s.Containers[0]\<close> is read only in
  dynamic mode (the conjunction is short-circuit), and on an empty pool the read panics. The
  step ends in the panic, in a failed start of the pool, or with the pool on which the
  selection will run.
\<close>

datatype wake = WakePanic | WakeFailed ReqController | WakeDone ReqController

definition ServeHTTP_wake :: "daemon \<Rightarrow> ReqController \<Rightarrow> wake" where
  "ServeHTTP_wake d s =
     (if Type (Config s) = DynamicController
      then (case Containers s of
              [] \<Rightarrow> WakePanic
            | c0 # _ \<Rightarrow>
                (if \<not> Started c0
                 then (case startContainers d s of
                         (Some err, s1) \<Rightarrow> WakeFailed s1
                       | (None, s1) \<Rightarrow> WakeDone s1)
                 else WakeDone s))
      else WakeDone s)"

definition ServeHTTP ::
  "daemon \<Rightarrow> net \<Rightarrow> rand \<Rightarrow> ResponseWriter \<Rightarrow> Request \<Rightarrow> ReqController \<Rightarrow> outcome" where
  "ServeHTTP d n g w r s =
     (case ServeHTTP_wake d s of
        WakePanic \<Rightarrow> Panic
      | WakeFailed s1 \<Rightarrow> Responded (WriteHeader StatusInternalServerError w) s1 g
      | WakeDone s1 \<Rightarrow> ServeHTTP_proxy n g w r s1)"

subsection \<open>Notions of the specification\<close>

text \<open>A container is ready when it is started and not dirty.\<close>

definition ready :: "Container \<Rightarrow> bool" where
  "ready c = (Started c \<and> \<not> Dirty c)"



text \<open>
  The operations of the controller, and runs of them. An operation's error is dropped: the
  pool it leaves is the pool the next operation finds. A request whose handler panics leaves
  the pool as it was.
\<close>

datatype operation =
    Provision
  | Initialize
  | StartAll
  | StopAll bool
  | MarkDirty string
  | SelectReady
  | Cleanup
  | Serve net ResponseWriter Request

fun step :: "daemon \<Rightarrow> operation \<Rightarrow> ReqController \<times> rand \<Rightarrow> ReqController \<times> rand" where
  "step d Provision (s, g) = (snd (createNewContainer d s), g)"
| "step d Initialize (s, g) = (snd (Init d s), g)"
| "step d StartAll (s, g) = (snd (startContainers d s), g)"
| "step d (StopAll hard) (s, g) = (snd (stopContainers d hard s), g)"
| "step d (MarkDirty cid) (s, g) = (setContainerDirty cid s, g)"
| "step d SelectReady (s, g) = (s, snd (getRandomContainer g s))"
| "step d Cleanup (s, g) = (snd (cleanupContainers d s), g)"
| "step d (Serve n w r) (s, g) =
     (case ServeHTTP d n g w r s of Panic \<Rightarrow> (s, g) | Responded w' s' g' \<Rightarrow> (s', g'))"

definition run :: "daemon \<Rightarrow> operation list \<Rightarrow> ReqController \<times> rand \<Rightarrow> ReqController \<times> rand"
  where "run d ops sg = fold (step d) ops sg"

text \<open>
  An entry is kept when it has the same id and the same name and is still dirty if it was
  dirty; a pool is kept when each of its entries is kept, at the same index.
\<close>

definition kept :: "Container \<Rightarrow> Container \<Rightarrow> bool" where
  "kept c c' = (Id' c' = Id' c \<and> Name c' = Name c \<and> (Dirty c \<longrightarrow> Dirty c'))"

definition pool_kept :: "Container list \<Rightarrow> Container list \<Rightarrow> bool" where
  "pool_kept cs cs' = (length cs \<le> length cs' \<and> (\<forall>i<length cs. kept (cs ! i) (cs' ! i)))"

text \<open>The invariant of the pool: an entry that is not started has an empty address.\<close>

definition addr_ok :: "Container \<Rightarrow> bool" where
  "addr_ok c = (\<not> Started c \<longrightarrow> IPAddr c = [])"

definition pool_inv :: "ReqController \<Rightarrow> bool" where
  "pool_inv s = list_all addr_ok (Containers s)"





subsection \<open>Example data\<close>

definition ex_config :: ControllerConfig where
  "ex_config = \<lparr>Deployment = ''web'', ContainerImage = ''php'', ContainerImageTag = ''8'',
     ContainerPort = 9000, ContainerAmount = 2, Type = ''static'', DynIdleSeconds = 60\<rparr>"

definition ex_dirty :: Container where
  "ex_dirty = \<lparr>Name = ''web-1'', Id' = ''a'', Started = True, Dirty = True,
     IPAddr = ''10.0.0.1''\<rparr>"

definition ex_ready :: Container where
  "ex_ready = \<lparr>Name = ''web-2'', Id' = ''b'', Started = True, Dirty = False,
     IPAddr = ''10.0.0.2''\<rparr>"

definition ex_pool :: ReqController where
  "ex_pool = \<lparr>DockerCli = [], Config = ex_config, Containers = [ex_dirty, ex_ready],
     ContainerNo = 2\<rparr>"

definition ex_other :: Container where
  "ex_other = \<lparr>Name = ''web-3'', Id' = ''c'', Started = True, Dirty = False,
     IPAddr = ''10.0.0.3''\<rparr>"

definition ex_pool3 :: ReqController where
  "ex_pool3 = \<lparr>DockerCli = [], Config = ex_config\<lparr>ContainerAmount := 3\<rparr>,
     Containers = [ex_dirty, ex_ready, ex_other], ContainerNo = 3\<rparr>"

text \<open>A daemon that grants every request, and a network on which every dispatch fails.\<close>

definition ex_daemon :: daemon where
  "ex_daemon = \<lparr>ContainerCreate = (\<lambda>t name img deployment. Inr (''id-'' @ name)),
     ContainerStart = (\<lambda>t cid. None),
     ContainerInspect = (\<lambda>t cid. Inr (''ip-'' @ cid)),
     ContainerStop = (\<lambda>t cid. None),
     ContainerKill = (\<lambda>t cid. None),
     ContainerRemove = (\<lambda>t cid. None)\<rparr>"

definition ex_net_down :: net where
  "ex_net_down = \<lparr>CanonicalMIMEHeaderKey = (\<lambda>k. k),
     NewRequest = (\<lambda>m u b. Inr \<lparr>Method = m, ReqURL = u, ReqHeader = [], ReqBody = b\<rparr>),
     Do = (\<lambda>req. Inl (Err ''connection refused''))\<rparr>"

definition ex_request :: Request where
  "ex_request = \<lparr>Method = ''GET'',
     ReqURL = \<lparr>Scheme = ''http'', Host = ''example.org'', Path = ''/index.php'',
       RawQuery = ''q=1''\<rparr>,
     ReqHeader = [(''Accept'', [''*/*''])], ReqBody = ''body''\<rparr>"

definition ex_writer :: ResponseWriter where
  "ex_writer = \<lparr>wHeader = [], wStatus = None, wBody = []\<rparr>"

text \<open>A dynamic controller configured with no containers.\<close>

definition ex_dynamic_empty :: ControllerConfig where
  "ex_dynamic_empty = ex_config\<lparr>ContainerAmount := 0, Type := ''dynamic''\<rparr>"

text \<open>A pool of two containers that were never started.\<close>

definition ex_stopped_a :: Container where
  "ex_stopped_a = \<lparr>Name = ''web-1'', Id' = ''a'', Started = False, Dirty = False, IPAddr = ''''\<rparr>"

definition ex_stopped_b :: Container where
  "ex_stopped_b = \<lparr>Name = ''web-2'', Id' = ''b'', Started = False, Dirty = False, IPAddr = ''''\<rparr>"

definition ex_dormant :: ReqController where
  "ex_dormant = \<lparr>DockerCli = [], Config = ex_config, Containers = [ex_stopped_a, ex_stopped_b],
     ContainerNo = 2\<rparr>"

text \<open>A daemon that cannot stop container \<open>b\<close> gracefully, and one that cannot kill it either.\<close>

definition ex_daemon_stuck :: daemon where
  "ex_daemon_stuck =
     ex_daemon\<lparr>ContainerStop := (\<lambda>t cid. if cid = ''b'' then Some (Err ''timeout'') else None)\<rparr>"

definition ex_daemon_unkillable :: daemon where
  "ex_daemon_unkillable =
     ex_daemon_stuck\<lparr>ContainerKill := (\<lambda>t cid. if cid = ''b'' then Some (Err ''busy'') else None)\<rparr>"



text \<open>
  A network on which the dispatch succeeds, with a backend that sets two cookies, and a writer
  that already holds one.
\<close>

definition ex_response :: Response where
  "ex_response = \<lparr>StatusCode = 404,
     ResHeader = [(''Set-Cookie'', [''a=1'', ''b=2'']), (''Content-Type'', [''text/html''])],
     ResBody = ''not found''\<rparr>"

definition ex_net_up :: net where
  "ex_net_up = \<lparr>CanonicalMIMEHeaderKey = (\<lambda>k. k),
     NewRequest = (\<lambda>m u b. Inr \<lparr>Method = m, ReqURL = u, ReqHeader = [], ReqBody = b\<rparr>),
     Do = (\<lambda>req. Inr ex_response)\<rparr>"

definition ex_writer_cookie :: ResponseWriter where
  "ex_writer_cookie = \<lparr>wHeader = [(''Set-Cookie'', [''z=0''])], wStatus = None, wBody = []\<rparr>"







section \<open>Properties\<close>

subsection \<open>Selection\<close>

lemma Intn_less: "0 < n \<Longrightarrow> fst (Intn g n) < n"
  by (simp add: Intn_def)

lemma probe_Some:
  "getRandomContainer_probe cs limit a g = (Some c, g') \<Longrightarrow> cs \<noteq> [] \<Longrightarrow>
   c \<in> set cs \<and> Started c \<and> \<not> Dirty c"
proof (induction cs limit a g rule: getRandomContainer_probe.induct)
  case (1 cs limit attempts g)
  show ?case
  proof (cases "attempts \<le> limit")
    case False
    with "1.prems" show ?thesis
      by (simp add: getRandomContainer_probe.simps)
  next
    case True
    let ?i = "g 0 mod length cs"
    have mem: "cs ! ?i \<in> set cs"
      using "1.prems"(2) by simp
    show ?thesis
    proof (cases "\<not> Dirty (cs ! ?i) \<and> Started (cs ! ?i)")
      case hit: True
      with True "1.prems"(1) have "c = cs ! ?i"
        by (simp add: getRandomContainer_probe.simps [of cs limit attempts g] Intn_def)
      with hit mem show ?thesis by simp
    next
      case miss: False
      with True "1.prems"(1)
      have "getRandomContainer_probe cs limit (attempts + 1) (\<lambda>k. g (Suc k)) = (Some c, g')"
        by (simp add: getRandomContainer_probe.simps [of cs limit attempts g] Intn_def)
      with "1.IH" [of ?i "\<lambda>k. g (Suc k)" "cs ! ?i"] True miss "1.prems"(2)
      show ?thesis by (simp add: Intn_def)
    qed
  qed
qed

lemma find_ready_Some:
  "find (\<lambda>c. \<not> Dirty c \<and> Started c) cs = Some c \<Longrightarrow> c \<in> set cs \<and> Started c \<and> \<not> Dirty c"
  by (induction cs) (auto split: if_splits)


lemma getRandomContainer_Inr:
  "getRandomContainer g s = (Inr c, g') \<Longrightarrow> c \<in> set (Containers s) \<and> Started c \<and> \<not> Dirty c"
  by (auto simp: getRandomContainer_def Let_def split: if_splits prod.splits option.splits
           dest: probe_Some find_ready_Some)




subsection \<open>Dispatch failure\<close>








lemma getRandomContainer_fst_Inr:
  assumes "fst (getRandomContainer g s) = Inr c"
  shows "c \<in> set (Containers s) \<and> Started c \<and> \<not> Dirty c"
proof -
  have "getRandomContainer g s = (Inr c, snd (getRandomContainer g s))"
    using assms by (metis prod.collapse)
  then show ?thesis by (rule getRandomContainer_Inr)
qed




subsection \<open>The dormancy check on an empty pool\<close>

lemma ServeHTTP_proxy_no_panic: "ServeHTTP_proxy n g w r s \<noteq> Panic"
  by (simp add: ServeHTTP_proxy_def Let_def split: prod.splits sum.splits)

lemma ServeHTTP_wake_panic:
  "ServeHTTP_wake d s = WakePanic \<longleftrightarrow> Type (Config s) = DynamicController \<and> Containers s = []"
  by (simp add: ServeHTTP_wake_def split: list.splits prod.splits option.splits)

lemma ServeHTTP_panic:
  "ServeHTTP d n g w r s = Panic \<longleftrightarrow> Type (Config s) = DynamicController \<and> Containers s = []"
proof (cases "ServeHTTP_wake d s")
  case WakePanic
  then show ?thesis using ServeHTTP_wake_panic [of d s] by (simp add: ServeHTTP_def)
next
  case (WakeFailed s1)
  then show ?thesis using ServeHTTP_wake_panic [of d s] by (simp add: ServeHTTP_def)
next
  case (WakeDone s1)
  then show ?thesis using ServeHTTP_wake_panic [of d s]
    by (simp add: ServeHTTP_def ServeHTTP_proxy_no_panic)
qed

lemma Init_loop_none: "\<not> i < ContainerAmount (Config s) \<Longrightarrow> Init_loop d i s = (None, s)"
  by (simp add: Init_loop.simps)

text \<open>
  C3. In dynamic mode the handler reads the first pool entry before anything tests the pool
  for emptiness: the handler panics (index out of range) exactly when the mode is dynamic and
  the pool is empty, so on a non-empty pool the read is safe and on an empty pool in dynamic
  mode no response is produced. A controller built with \<open>ContainerAmount \<le> 0\<close> in dynamic mode
  is initialised without error to an empty pool, and its handler panics on every request.
\<close>

theorem dynamic_empty_pool_panics:
  "(ServeHTTP d n g w r s = Panic \<longleftrightarrow>
      Type (Config s) = DynamicController \<and> Containers s = [])
   \<and> (Containers s \<noteq> [] \<longrightarrow> ServeHTTP d n g w r s \<noteq> Panic)
   \<and> (NewReqController None conf = Inr s0 \<and> Type conf = DynamicController \<and>
        ContainerAmount conf \<le> 0 \<longrightarrow>
        Init d s0 = (None, s0) \<and> Containers s0 = [] \<and> ServeHTTP d n g w r s0 = Panic)"
proof (intro conjI impI)
  show "ServeHTTP d n g w r s = Panic \<longleftrightarrow>
      Type (Config s) = DynamicController \<and> Containers s = []"
    by (rule ServeHTTP_panic)
  show "ServeHTTP d n g w r s \<noteq> Panic" if "Containers s \<noteq> []"
    using that by (simp add: ServeHTTP_panic)
  assume a: "NewReqController None conf = Inr s0 \<and> Type conf = DynamicController \<and>
        ContainerAmount conf \<le> 0"
  then have s0: "s0 = \<lparr>DockerCli = [], Config = conf, Containers = [], ContainerNo = 0\<rparr>"
    by (simp add: NewReqController_def split: if_splits)
  then have loop: "Init_loop d 0 s0 = (None, s0)"
    using a by (simp add: Init_loop_none)
  have "Type (Config s0) \<noteq> StaticController"
    using s0 a by (simp add: StaticController_def DynamicController_def)
  with loop show "Init d s0 = (None, s0)"
    by (simp add: Init_def)
  show "Containers s0 = []" using s0 by simp
  then show "ServeHTTP d n g w r s0 = Panic"
    using s0 a by (simp add: ServeHTTP_panic)
qed

theorem dynamic_empty_pool_panics_witness:
  "NewReqController None ex_dynamic_empty =
     Inr \<lparr>DockerCli = [], Config = ex_dynamic_empty, Containers = [], ContainerNo = 0\<rparr>
   \<and> Type ex_dynamic_empty = DynamicController
   \<and> ContainerAmount ex_dynamic_empty \<le> 0
   \<and> Init ex_daemon \<lparr>DockerCli = [], Config = ex_dynamic_empty, Containers = [],
        ContainerNo = 0\<rparr> =
       (None, \<lparr>DockerCli = [], Config = ex_dynamic_empty, Containers = [], ContainerNo = 0\<rparr>)
   \<and> ServeHTTP ex_daemon ex_net_down (\<lambda>k. 0) ex_writer ex_request
        \<lparr>DockerCli = [], Config = ex_dynamic_empty, Containers = [], ContainerNo = 0\<rparr> = Panic
   \<and> Containers ex_pool \<noteq> []
   \<and> ServeHTTP ex_daemon ex_net_down (\<lambda>k. 0) ex_writer ex_request ex_pool \<noteq> Panic"
proof -
  let ?s0 = "\<lparr>DockerCli = [], Config = ex_dynamic_empty, Containers = [], ContainerNo = 0\<rparr>"
  have new: "NewReqController None ex_dynamic_empty = Inr ?s0"
    by (simp add: NewReqController_def validControllerType_def controllerTypes_def
        DynamicController_def ex_dynamic_empty_def ex_config_def)
  have ty: "Type ex_dynamic_empty = DynamicController"
    by (simp add: DynamicController_def ex_dynamic_empty_def)
  have am: "ContainerAmount ex_dynamic_empty \<le> 0"
    by (simp add: ex_dynamic_empty_def)
  have ne: "Containers ex_pool \<noteq> []"
    by (simp add: ex_pool_def)
  from dynamic_empty_pool_panics
    [of ex_daemon ex_net_down "\<lambda>k. 0" ex_writer ex_request ex_pool ex_dynamic_empty ?s0]
    new ty am ne
  show ?thesis by simp
qed

subsection \<open>Starting the pool\<close>

lemma startContainers_loop_all_started:
  "startContainers_loop d cs t = (None, cs', t') \<Longrightarrow> \<forall>c\<in>set cs'. Started c"
proof (induction cs arbitrary: t cs' t')
  case Nil
  then show ?case by simp
next
  case (Cons c cs)
  show ?case
  proof (cases "Started c")
    case True
    with Cons.prems obtain cs1 where "startContainers_loop d cs t = (None, cs1, t')" "cs' = c # cs1"
      by (auto split: prod.splits)
    with Cons.IH True show ?thesis by auto
  next
    case False
    with Cons.prems obtain t2 details cs1 where
      "startContainers_loop d cs t2 = (None, cs1, t')"
      "cs' = c\<lparr>IPAddr := details, Started := True\<rparr> # cs1"
      by (auto split: prod.splits option.splits sum.splits)
    with Cons.IH show ?thesis by auto
  qed
qed

lemma startContainers_loop_skip_all:
  "\<forall>c\<in>set cs. Started c \<Longrightarrow> startContainers_loop d cs t = (None, cs, t)"
  by (induction cs) auto

text \<open>
  C6. \<open>startContainers\<close> is idempotent. If a call returns without error, every entry is
  started, and a second call (whatever the daemon would answer) returns without error, sends
  no request to the daemon (no start and no inspect) and leaves the controller as it was, in
  particular the started flags and the addresses.
\<close>

theorem startContainers_idempotent:
  assumes first: "startContainers d s = (None, s1)"
  shows "startContainers d' s1 = (None, s1)
    \<and> DockerCli (snd (startContainers d' s1)) = DockerCli s1
    \<and> map Started (Containers (snd (startContainers d' s1))) = map Started (Containers s1)
    \<and> map IPAddr (Containers (snd (startContainers d' s1))) = map IPAddr (Containers s1)
    \<and> (\<forall>c\<in>set (Containers s1). Started c)"
proof -
  obtain cs1 t1 where loop: "startContainers_loop d (Containers s) (DockerCli s) = (None, cs1, t1)"
    and s1: "s1 = s\<lparr>Containers := cs1, DockerCli := t1\<rparr>"
    using first by (auto simp: startContainers_def split: prod.splits)
  from loop have all: "\<forall>c\<in>set cs1. Started c"
    by (rule startContainers_loop_all_started)
  then have "startContainers_loop d' cs1 t1 = (None, cs1, t1)"
    by (rule startContainers_loop_skip_all)
  with s1 have again: "startContainers d' s1 = (None, s1)"
    by (simp add: startContainers_def)
  with all s1 show ?thesis by simp
qed

theorem startContainers_idempotent_witness:
  "startContainers ex_daemon ex_dormant =
     (None, ex_dormant\<lparr>Containers :=
        [ex_stopped_a\<lparr>IPAddr := ''ip-a'', Started := True\<rparr>,
         ex_stopped_b\<lparr>IPAddr := ''ip-b'', Started := True\<rparr>],
        DockerCli := [StartReq ''a'', InspectReq ''a'', StartReq ''b'', InspectReq ''b'']\<rparr>)
   \<and> startContainers ex_daemon
       (ex_dormant\<lparr>Containers :=
        [ex_stopped_a\<lparr>IPAddr := ''ip-a'', Started := True\<rparr>,
         ex_stopped_b\<lparr>IPAddr := ''ip-b'', Started := True\<rparr>],
        DockerCli := [StartReq ''a'', InspectReq ''a'', StartReq ''b'', InspectReq ''b'']\<rparr>) =
     (None, ex_dormant\<lparr>Containers :=
        [ex_stopped_a\<lparr>IPAddr := ''ip-a'', Started := True\<rparr>,
         ex_stopped_b\<lparr>IPAddr := ''ip-b'', Started := True\<rparr>],
        DockerCli := [StartReq ''a'', InspectReq ''a'', StartReq ''b'', InspectReq ''b'']\<rparr>)"
proof -
  have first: "startContainers ex_daemon ex_dormant =
     (None, ex_dormant\<lparr>Containers :=
        [ex_stopped_a\<lparr>IPAddr := ''ip-a'', Started := True\<rparr>,
         ex_stopped_b\<lparr>IPAddr := ''ip-b'', Started := True\<rparr>],
        DockerCli := [StartReq ''a'', InspectReq ''a'', StartReq ''b'', InspectReq ''b'']\<rparr>)"
    by (simp add: startContainers_def StartContainer_def ContainerDetails_def ex_daemon_def
        ex_dormant_def ex_stopped_a_def ex_stopped_b_def)
  from startContainers_idempotent [OF first, of ex_daemon] first show ?thesis
    by simp
qed

subsection \<open>Stopping the pool\<close>

lemma stopContainers_loop_append:
  "stopContainers_loop d hard pre t = (None, pre', t1) \<Longrightarrow>
   stopContainers_loop d hard (pre @ rest) t =
     (case stopContainers_loop d hard rest t1 of (r, rest', t') \<Rightarrow> (r, pre' @ rest', t'))"
proof (induction pre arbitrary: t pre')
  case Nil
  then show ?case by (simp split: prod.splits)
next
  case (Cons c pre)
  show ?case
  proof (cases "Started c")
    case False
    with Cons.prems obtain p1 where p1: "stopContainers_loop d hard pre t = (None, p1, t1)"
      and eq: "pre' = c # p1"
      by (auto split: prod.splits)
    from Cons.IH [OF p1] False eq show ?thesis
      by (simp split: prod.splits)
  next
    case True
    obtain r0 t0 where stop: "StopContainer d (Id' c) t = (r0, t0)"
      by (cases "StopContainer d (Id' c) t")
    show ?thesis
    proof (cases r0)
      case None
      with Cons.prems True stop obtain p1
        where p1: "stopContainers_loop d hard pre t0 = (None, p1, t1)"
          and eq: "pre' = c\<lparr>Started := False, IPAddr := ''''\<rparr> # p1"
        by (auto split: prod.splits)
      from Cons.IH [OF p1] True stop None eq show ?thesis
        by (simp split: prod.splits)
    next
      case (Some err)
      with Cons.prems True stop have hard: hard
        by (auto split: if_splits)
      obtain r2 t2 where kill: "KillContainer d (Id' c) t0 = (r2, t2)"
        by (cases "KillContainer d (Id' c) t0")
      with Cons.prems True stop Some hard have r2: "r2 = None"
        by (cases r2) auto
      with Cons.prems True stop Some hard kill obtain p1
        where p1: "stopContainers_loop d hard pre t2 = (None, p1, t1)"
          and eq: "pre' = c\<lparr>Started := False, IPAddr := ''''\<rparr> # p1"
        by (auto split: prod.splits)
      from Cons.IH [OF p1] True stop Some hard kill r2 eq show ?thesis
        by (simp split: prod.splits)
    qed
  qed
qed

lemma stopContainers_loop_skips:
  "stopContainers_loop d hard cs t = (r, cs', t') \<Longrightarrow>
   list_all2 (\<lambda>c c'. \<not> Started c \<longrightarrow> c' = c) cs cs'"
proof (induction cs arbitrary: t r cs' t')
  case Nil
  then show ?case by simp
next
  case (Cons c cs)
  have refl: "list_all2 (\<lambda>c c'. \<not> Started c \<longrightarrow> c' = c) cs cs"
    by (simp add: list_all2_same)
  from Cons.prems Cons.IH refl show ?case
    by (auto split: if_splits prod.splits option.splits)
qed

lemma stopContainers_loop_requests:
  "stopContainers_loop d hard cs t = (r, cs', t') \<Longrightarrow>
   \<exists>new. t' = t @ new \<and>
     set new \<subseteq> {q. \<exists>c\<in>set cs. Started c \<and> (q = StopReq (Id' c) \<or> q = KillReq (Id' c))}"
proof (induction cs arbitrary: t r cs' t')
  case Nil
  then show ?case by simp
next
  case (Cons c cs)
  let ?ok = "\<lambda>cs. {q. \<exists>c\<in>set cs. Started c \<and> (q = StopReq (Id' c) \<or> q = KillReq (Id' c))}"
  have mono: "?ok cs \<subseteq> ?ok (c # cs)" by auto
  have step: "\<exists>new. t' = t @ new \<and> set new \<subseteq> ?ok (c # cs)"
    if rest: "stopContainers_loop d hard cs (t @ pre) = (r, cs1, t')"
      and pre: "set pre \<subseteq> ?ok (c # cs)" for pre cs1
  proof -
    from Cons.IH [OF rest] obtain new where "t' = (t @ pre) @ new" "set new \<subseteq> ?ok cs"
      by blast
    with pre mono have "t' = t @ (pre @ new) \<and> set (pre @ new) \<subseteq> ?ok (c # cs)"
      by auto
    then show ?thesis by blast
  qed
  show ?case
  proof (cases "Started c")
    case False
    with Cons.prems obtain cs1 where "stopContainers_loop d hard cs (t @ []) = (r, cs1, t')"
      by (auto split: prod.splits)
    then show ?thesis by (rule step) simp
  next
    case True
    then have s1: "set [StopReq (Id' c)] \<subseteq> ?ok (c # cs)"
      and s2: "set [StopReq (Id' c), KillReq (Id' c)] \<subseteq> ?ok (c # cs)"
      by auto
    have ex1: "\<exists>new. t @ [StopReq (Id' c)] = t @ new \<and> set new \<subseteq> ?ok (c # cs)"
      using s1 by blast
    have ex2: "\<exists>new. t @ [StopReq (Id' c), KillReq (Id' c)] = t @ new \<and> set new \<subseteq> ?ok (c # cs)"
      using s2 by blast
    show ?thesis
    proof (cases "ContainerStop d t (Id' c)")
      case None
      with Cons.prems True obtain cs1
        where "stopContainers_loop d hard cs (t @ [StopReq (Id' c)]) = (r, cs1, t')"
        by (auto simp: StopContainer_def split: prod.splits)
      then show ?thesis using s1 by (rule step)
    next
      case (Some e)
      show ?thesis
      proof (cases hard)
        case False
        with Cons.prems True Some have "t' = t @ [StopReq (Id' c)]"
          by (auto simp: StopContainer_def)
        with ex1 show ?thesis by simp
      next
        case hard: True
        show ?thesis
        proof (cases "ContainerKill d (t @ [StopReq (Id' c)]) (Id' c)")
          case None
          with Cons.prems True Some hard obtain cs1
            where "stopContainers_loop d hard cs (t @ [StopReq (Id' c), KillReq (Id' c)]) =
                (r, cs1, t')"
            by (auto simp: StopContainer_def KillContainer_def split: prod.splits)
          then show ?thesis using s2 by (rule step)
        next
          case (Some e2)
          with Cons.prems True \<open>ContainerStop d t (Id' c) = Some e\<close> hard
          have "t' = t @ [StopReq (Id' c), KillReq (Id' c)]"
            by (auto simp: StopContainer_def KillContainer_def)
          with ex2 show ?thesis by simp
        qed
      qed
    qed
  qed
qed

text \<open>
  C4. Suppose the entries before \<open>c\<close> are stopped without error (leaving them as \<open>pre'\<close> and the
  requests sent as \<open>t1\<close>), \<open>c\<close> is started, and its graceful stop fails. Without \<open>hard\<close>,
  \<open>stopContainers\<close> returns that error, and \<open>c\<close> and every entry after it are as they were.
  With \<open>hard\<close> it sends a kill for \<open>c\<close>: when the kill fails it returns the kill's error, with
  \<open>c\<close> and the entries after it as they were; when the kill succeeds it clears the started
  flag and the address of \<open>c\<close> and goes on with the entries after it. In every run, an entry
  that is not started is left as it is, and every request sent is a stop or a kill of a
  started entry.
\<close>

theorem stopContainers_failure:
  "(Containers s = pre @ c # post \<and>
    stopContainers_loop d hard pre (DockerCli s) = (None, pre', t1) \<and>
    Started c \<and> ContainerStop d t1 (Id' c) = Some e \<longrightarrow>
      (\<not> hard \<longrightarrow>
         stopContainers d hard s =
           (Some (Wrap e (''Unable to stop container '' @ Id' c)),
            s\<lparr>Containers := pre' @ c # post, DockerCli := t1 @ [StopReq (Id' c)]\<rparr>))
    \<and> (hard \<and> ContainerKill d (t1 @ [StopReq (Id' c)]) (Id' c) = Some e2 \<longrightarrow>
         stopContainers d hard s =
           (Some (Wrap e2 (''Unable to kill container '' @ Id' c)),
            s\<lparr>Containers := pre' @ c # post,
              DockerCli := t1 @ [StopReq (Id' c), KillReq (Id' c)]\<rparr>))
    \<and> (hard \<and> ContainerKill d (t1 @ [StopReq (Id' c)]) (Id' c) = None \<longrightarrow>
         stopContainers d hard s =
           (case stopContainers_loop d hard post (t1 @ [StopReq (Id' c), KillReq (Id' c)]) of
              (r, post', t') \<Rightarrow>
                (r, s\<lparr>Containers := pre' @ c\<lparr>Started := False, IPAddr := []\<rparr> # post',
                      DockerCli := t'\<rparr>))))
   \<and> (stopContainers d hard u = (r, u') \<longrightarrow>
        length (Containers u') = length (Containers u)
        \<and> (\<forall>i<length (Containers u).
              \<not> Started (Containers u ! i) \<longrightarrow> Containers u' ! i = Containers u ! i)
        \<and> (\<exists>new. DockerCli u' = DockerCli u @ new \<and>
              set new \<subseteq> {q. \<exists>c\<in>set (Containers u).
                               Started c \<and> (q = StopReq (Id' c) \<or> q = KillReq (Id' c))}))"
proof (intro conjI impI)
  assume a: "Containers s = pre @ c # post \<and>
    stopContainers_loop d hard pre (DockerCli s) = (None, pre', t1) \<and>
    Started c \<and> ContainerStop d t1 (Id' c) = Some e"
  then have cs: "Containers s = pre @ c # post"
    and pre: "stopContainers_loop d hard pre (DockerCli s) = (None, pre', t1)"
    and st: "Started c" and fail: "ContainerStop d t1 (Id' c) = Some e"
    by simp_all
  note app = stopContainers_loop_append [OF pre, of "c # post"]
  have stop: "StopContainer d (Id' c) t1 =
      (Some (Wrap e (''Unable to stop container '' @ Id' c)), t1 @ [StopReq (Id' c)])"
    using fail by (simp add: StopContainer_def)
  show "stopContainers d hard s =
           (Some (Wrap e (''Unable to stop container '' @ Id' c)),
            s\<lparr>Containers := pre' @ c # post, DockerCli := t1 @ [StopReq (Id' c)]\<rparr>)"
    if "\<not> hard"
    using that app cs st stop by (simp add: stopContainers_def)
  show "stopContainers d hard s =
           (Some (Wrap e2 (''Unable to kill container '' @ Id' c)),
            s\<lparr>Containers := pre' @ c # post,
              DockerCli := t1 @ [StopReq (Id' c), KillReq (Id' c)]\<rparr>)"
    if "hard \<and> ContainerKill d (t1 @ [StopReq (Id' c)]) (Id' c) = Some e2"
    using that app cs st stop by (simp add: stopContainers_def KillContainer_def)
  show "stopContainers d hard s =
           (case stopContainers_loop d hard post (t1 @ [StopReq (Id' c), KillReq (Id' c)]) of
              (r, post', t') \<Rightarrow>
                (r, s\<lparr>Containers := pre' @ c\<lparr>Started := False, IPAddr := []\<rparr> # post',
                      DockerCli := t'\<rparr>))"
    if "hard \<and> ContainerKill d (t1 @ [StopReq (Id' c)]) (Id' c) = None"
    using that app cs st stop
    by (simp add: stopContainers_def KillContainer_def split: prod.splits)
next
  assume run: "stopContainers d hard u = (r, u')"
  then obtain cs' t' where loop: "stopContainers_loop d hard (Containers u) (DockerCli u) = (r, cs', t')"
    and u': "u' = u\<lparr>Containers := cs', DockerCli := t'\<rparr>"
    by (auto simp: stopContainers_def split: prod.splits)
  from stopContainers_loop_skips [OF loop]
  have l2: "list_all2 (\<lambda>c c'. \<not> Started c \<longrightarrow> c' = c) (Containers u) cs'" .
  then show "length (Containers u') = length (Containers u)"
    using u' by (simp add: list_all2_lengthD)
  from l2 show "\<forall>i<length (Containers u).
              \<not> Started (Containers u ! i) \<longrightarrow> Containers u' ! i = Containers u ! i"
    using u' by (simp add: list_all2_conv_all_nth)
  from stopContainers_loop_requests [OF loop]
  show "\<exists>new. DockerCli u' = DockerCli u @ new \<and>
              set new \<subseteq> {q. \<exists>c\<in>set (Containers u).
                               Started c \<and> (q = StopReq (Id' c) \<or> q = KillReq (Id' c))}"
    using u' by simp
qed

theorem stopContainers_failure_witness:
  "stopContainers ex_daemon_stuck False ex_pool3 =
     (Some (Wrap (Err ''timeout'') ''Unable to stop container b''),
      ex_pool3\<lparr>Containers := [ex_dirty\<lparr>Started := False, IPAddr := []\<rparr>, ex_ready, ex_other],
        DockerCli := [StopReq ''a'', StopReq ''b'']\<rparr>)
   \<and> stopContainers ex_daemon_unkillable True ex_pool3 =
     (Some (Wrap (Err ''busy'') ''Unable to kill container b''),
      ex_pool3\<lparr>Containers := [ex_dirty\<lparr>Started := False, IPAddr := []\<rparr>, ex_ready, ex_other],
        DockerCli := [StopReq ''a'', StopReq ''b'', KillReq ''b'']\<rparr>)
   \<and> stopContainers ex_daemon_stuck True ex_pool3 =
     (None,
      ex_pool3\<lparr>Containers := [ex_dirty\<lparr>Started := False, IPAddr := []\<rparr>,
          ex_ready\<lparr>Started := False, IPAddr := []\<rparr>,
          ex_other\<lparr>Started := False, IPAddr := []\<rparr>],
        DockerCli := [StopReq ''a'', StopReq ''b'', KillReq ''b'', StopReq ''c'']\<rparr>)
   \<and> stopContainers ex_daemon True ex_dormant = (None, ex_dormant)
   \<and> Containers (snd (stopContainers ex_daemon True ex_dormant)) ! 0 = ex_stopped_a"
proof -
  let ?pre' = "[ex_dirty\<lparr>Started := False, IPAddr := []\<rparr>]"
  have cs: "Containers ex_pool3 = [ex_dirty] @ ex_ready # [ex_other]"
    by (simp add: ex_pool3_def)
  have ids: "Id' ex_dirty = ''a''" "Id' ex_ready = ''b''" "Id' ex_other = ''c''"
    by (simp_all add: ex_dirty_def ex_ready_def ex_other_def)
  have started: "Started ex_dirty" "Started ex_ready" "Started ex_other"
    by (simp_all add: ex_dirty_def ex_ready_def ex_other_def)
  have t0: "DockerCli ex_pool3 = []"
    by (simp add: ex_pool3_def)
  have stop_a: "ContainerStop ex_daemon_stuck t ''a'' = None"
    "ContainerStop ex_daemon_unkillable t ''a'' = None"
    "ContainerStop ex_daemon_stuck t ''c'' = None" for t
    by (simp_all add: ex_daemon_stuck_def ex_daemon_unkillable_def ex_daemon_def)
  have stop_b: "ContainerStop ex_daemon_stuck t ''b'' = Some (Err ''timeout'')"
    "ContainerStop ex_daemon_unkillable t ''b'' = Some (Err ''timeout'')" for t
    by (simp_all add: ex_daemon_stuck_def ex_daemon_unkillable_def ex_daemon_def)
  have kill_b: "ContainerKill ex_daemon_stuck t ''b'' = None"
    "ContainerKill ex_daemon_unkillable t ''b'' = Some (Err ''busy'')" for t
    by (simp_all add: ex_daemon_stuck_def ex_daemon_unkillable_def ex_daemon_def)
  have pre: "stopContainers_loop ex_daemon_stuck hard [ex_dirty] (DockerCli ex_pool3) =
      (None, ?pre', [StopReq ''a''])"
    "stopContainers_loop ex_daemon_unkillable hard [ex_dirty] (DockerCli ex_pool3) =
      (None, ?pre', [StopReq ''a''])" for hard
    by (simp_all add: t0 ids started stop_a StopContainer_def)
  have post: "stopContainers_loop ex_daemon_stuck True [ex_other] t =
      (None, [ex_other\<lparr>Started := False, IPAddr := []\<rparr>], t @ [StopReq ''c''])" for t
    by (simp add: ids started stop_a StopContainer_def)
  have soft: "stopContainers ex_daemon_stuck False ex_pool3 =
     (Some (Wrap (Err ''timeout'') ''Unable to stop container b''),
      ex_pool3\<lparr>Containers := [ex_dirty\<lparr>Started := False, IPAddr := []\<rparr>, ex_ready, ex_other],
        DockerCli := [StopReq ''a'', StopReq ''b'']\<rparr>)"
    using stopContainers_failure
      [of ex_pool3 "[ex_dirty]" ex_ready "[ex_other]" ex_daemon_stuck False ?pre'
        "[StopReq ''a'']" "Err ''timeout''"]
      cs pre(1) started stop_b(1)
    by (simp add: ids)
  have nokill: "stopContainers ex_daemon_unkillable True ex_pool3 =
     (Some (Wrap (Err ''busy'') ''Unable to kill container b''),
      ex_pool3\<lparr>Containers := [ex_dirty\<lparr>Started := False, IPAddr := []\<rparr>, ex_ready, ex_other],
        DockerCli := [StopReq ''a'', StopReq ''b'', KillReq ''b'']\<rparr>)"
    using stopContainers_failure
      [of ex_pool3 "[ex_dirty]" ex_ready "[ex_other]" ex_daemon_unkillable True ?pre'
        "[StopReq ''a'']" "Err ''timeout''" "Err ''busy''"]
      cs pre(2) started stop_b(2) kill_b(2)
    by (simp add: ids)
  have killed: "stopContainers ex_daemon_stuck True ex_pool3 =
     (None,
      ex_pool3\<lparr>Containers := [ex_dirty\<lparr>Started := False, IPAddr := []\<rparr>,
          ex_ready\<lparr>Started := False, IPAddr := []\<rparr>,
          ex_other\<lparr>Started := False, IPAddr := []\<rparr>],
        DockerCli := [StopReq ''a'', StopReq ''b'', KillReq ''b'', StopReq ''c'']\<rparr>)"
    using stopContainers_failure
      [of ex_pool3 "[ex_dirty]" ex_ready "[ex_other]" ex_daemon_stuck True ?pre'
        "[StopReq ''a'']" "Err ''timeout''"]
      cs pre(1) started stop_b(1) kill_b(1) post
    by (simp add: ids)
  have idle: "stopContainers ex_daemon True ex_dormant = (None, ex_dormant)"
    by (simp add: stopContainers_def ex_dormant_def ex_stopped_a_def ex_stopped_b_def)
  have kept: "Containers (snd (stopContainers ex_daemon True ex_dormant)) ! 0 = ex_stopped_a"
    using idle by (simp add: ex_dormant_def)
  from soft nokill killed idle kept show ?thesis
    by (intro conjI)
qed

subsection \<open>Cleaning up\<close>





subsection \<open>What every operation keeps\<close>

lemma kept_refl: "kept c c"
  by (simp add: kept_def)

lemma kept_trans: "kept a b \<Longrightarrow> kept b c \<Longrightarrow> kept a c"
  by (simp add: kept_def)

lemma pool_kept_refl: "pool_kept cs cs"
  by (simp add: pool_kept_def kept_refl)

lemma pool_kept_trans: "pool_kept a b \<Longrightarrow> pool_kept b c \<Longrightarrow> pool_kept a c"
  unfolding pool_kept_def
  by (meson kept_trans le_trans less_le_trans)

lemma list_all2_pool_kept: "list_all2 kept cs cs' \<Longrightarrow> pool_kept cs cs'"
  by (simp add: pool_kept_def list_all2_conv_all_nth)

lemma pool_kept_append: "pool_kept cs (cs @ extra)"
  by (simp add: pool_kept_def nth_append kept_refl)

lemma startContainers_loop_kept:
  "startContainers_loop d cs t = (r, cs', t') \<Longrightarrow> list_all2 kept cs cs'"
proof (induction cs arbitrary: t r cs' t')
  case Nil
  then show ?case by simp
next
  case (Cons c cs)
  have same: "list_all2 kept cs cs"
    by (simp add: list_all2_same kept_refl)
  have upd: "kept c (c\<lparr>IPAddr := a, Started := True\<rparr>)" for a
    by (simp add: kept_def)
  from Cons.prems Cons.IH same upd show ?case
    by (auto simp: kept_refl split: if_splits prod.splits option.splits sum.splits)
qed

lemma stopContainers_loop_kept:
  "stopContainers_loop d hard cs t = (r, cs', t') \<Longrightarrow> list_all2 kept cs cs'"
proof (induction cs arbitrary: t r cs' t')
  case Nil
  then show ?case by simp
next
  case (Cons c cs)
  have same: "list_all2 kept cs cs"
    by (simp add: list_all2_same kept_refl)
  have upd: "kept c (c\<lparr>Started := False, IPAddr := []\<rparr>)"
    by (simp add: kept_def)
  from Cons.prems Cons.IH same upd show ?case
    by (auto simp: kept_refl split: if_splits prod.splits option.splits)
qed

lemma startContainers_kept:
  "pool_kept (Containers s) (Containers (snd (startContainers d s)))"
proof -
  obtain r cs' t' where loop: "startContainers_loop d (Containers s) (DockerCli s) = (r, cs', t')"
    by (metis prod_cases3)
  then have "list_all2 kept (Containers s) cs'"
    by (rule startContainers_loop_kept)
  then have "pool_kept (Containers s) cs'"
    by (rule list_all2_pool_kept)
  with loop show ?thesis
    by (simp add: startContainers_def)
qed

lemma stopContainers_kept:
  "pool_kept (Containers s) (Containers (snd (stopContainers d hard s)))"
proof -
  obtain r cs' t' where loop: "stopContainers_loop d hard (Containers s) (DockerCli s) = (r, cs', t')"
    by (metis prod_cases3)
  then have "list_all2 kept (Containers s) cs'"
    by (rule stopContainers_loop_kept)
  then have "pool_kept (Containers s) cs'"
    by (rule list_all2_pool_kept)
  with loop show ?thesis
    by (simp add: stopContainers_def)
qed

lemma setContainerDirty_kept:
  "pool_kept (Containers s) (Containers (setContainerDirty cid s))"
  by (simp add: pool_kept_def setContainerDirty_def kept_def)

lemma cleanupContainers_Containers:
  "Containers (snd (cleanupContainers d s)) = Containers s"
  by (simp add: cleanupContainers_def split: prod.splits)

lemma createNewContainer_Containers:
  "\<exists>extra. Containers (snd (createNewContainer d s)) = Containers s @ extra \<and>
     list_all (\<lambda>c. \<not> Started c \<and> \<not> Dirty c \<and> IPAddr c = []) extra"
  by (simp add: createNewContainer_def Let_def split: prod.splits sum.splits)

lemma createNewContainer_kept:
  "pool_kept (Containers s) (Containers (snd (createNewContainer d s)))"
  using createNewContainer_Containers [of d s] pool_kept_append by auto

lemma Init_loop_kept:
  "pool_kept (Containers s) (Containers (snd (Init_loop d i s)))"
proof (induction d i s rule: Init_loop.induct)
  case (1 d i s)
  show ?case
  proof (cases "i < ContainerAmount (Config s)")
    case False
    then show ?thesis by (simp add: Init_loop.simps pool_kept_refl)
  next
    case True
    obtain r s1 where c: "createNewContainer d s = (r, s1)"
      by (cases "createNewContainer d s")
    then have k1: "pool_kept (Containers s) (Containers s1)"
      using createNewContainer_kept [of s d] by simp
    show ?thesis
    proof (cases r)
      case (Some e)
      with True c k1 show ?thesis
        by (simp add: Init_loop.simps [of d i s])
    next
      case None
      with "1.IH" [OF True c [symmetric, unfolded None]] True c
      have "pool_kept (Containers s1) (Containers (snd (Init_loop d i s)))"
        by (simp add: Init_loop.simps [of d i s])
      with k1 show ?thesis by (rule pool_kept_trans)
    qed
  qed
qed

lemma Init_kept: "pool_kept (Containers s) (Containers (snd (Init d s)))"
proof -
  obtain r s1 where loop: "Init_loop d 0 s = (r, s1)"
    by (cases "Init_loop d 0 s")
  then have k1: "pool_kept (Containers s) (Containers s1)"
    using Init_loop_kept [of s d 0] by simp
  have k2: "pool_kept (Containers s1) (Containers (snd (startContainers d s1)))"
    by (rule startContainers_kept)
  from k1 k2 have k3: "pool_kept (Containers s) (Containers (snd (startContainers d s1)))"
    by (rule pool_kept_trans)
  show ?thesis
  proof (cases r)
    case (Some e)
    with loop k1 show ?thesis by (simp add: Init_def)
  next
    case None
    with loop k1 k3 show ?thesis
      by (cases "startContainers d s1") (auto simp: Init_def split: option.splits)
  qed
qed

lemma ServeHTTP_proxy_Responded:
  "ServeHTTP_proxy n g w r s = Responded w' s' g' \<Longrightarrow>
   s' = s \<or> (\<exists>cid. s' = setContainerDirty cid s)"
  by (auto simp: ServeHTTP_proxy_def Let_def split: prod.splits sum.splits)

lemma ServeHTTP_wake_cases:
  "ServeHTTP_wake d s = WakeFailed s1 \<or> ServeHTTP_wake d s = WakeDone s1 \<Longrightarrow>
   s1 = s \<or> s1 = snd (startContainers d s)"
  by (auto simp: ServeHTTP_wake_def split: if_splits list.splits prod.splits option.splits)

lemma ServeHTTP_Responded:
  assumes "ServeHTTP d n g w r s = Responded w' s' g'"
  shows "\<exists>s1. (s1 = s \<or> s1 = snd (startContainers d s)) \<and>
               (s' = s1 \<or> (\<exists>cid. s' = setContainerDirty cid s1))"
proof (cases "ServeHTTP_wake d s")
  case WakePanic
  with assms show ?thesis by (simp add: ServeHTTP_def)
next
  case (WakeFailed s1)
  with assms have "s' = s1" by (simp add: ServeHTTP_def)
  with WakeFailed ServeHTTP_wake_cases [of d s s1] show ?thesis by blast
next
  case (WakeDone s1)
  with assms have "ServeHTTP_proxy n g w r s1 = Responded w' s' g'"
    by (simp add: ServeHTTP_def)
  from ServeHTTP_proxy_Responded [OF this] WakeDone ServeHTTP_wake_cases [of d s s1]
  show ?thesis by blast
qed

lemma ServeHTTP_kept:
  assumes "ServeHTTP d n g w r s = Responded w' s' g'"
  shows "pool_kept (Containers s) (Containers s')"
proof -
  from ServeHTTP_Responded [OF assms] obtain s1
    where s1: "s1 = s \<or> s1 = snd (startContainers d s)"
      and s': "s' = s1 \<or> (\<exists>cid. s' = setContainerDirty cid s1)"
    by blast
  from s1 have k1: "pool_kept (Containers s) (Containers s1)"
    using startContainers_kept pool_kept_refl by auto
  from s' have k2: "pool_kept (Containers s1) (Containers s')"
    using setContainerDirty_kept pool_kept_refl by auto
  from k1 k2 show ?thesis by (rule pool_kept_trans)
qed

lemma step_kept: "pool_kept (Containers (fst sg)) (Containers (fst (step d op sg)))"
proof (cases sg)
  case (Pair s g)
  show ?thesis
  proof (cases op)
    case (Serve n w r)
    show ?thesis
    proof (cases "ServeHTTP d n g w r s")
      case Panic
      with Pair Serve show ?thesis by (simp add: pool_kept_refl)
    next
      case (Responded w' s' g')
      with Pair Serve ServeHTTP_kept [OF Responded] show ?thesis by simp
    qed
  qed (simp_all add: Pair createNewContainer_kept Init_kept startContainers_kept
        stopContainers_kept setContainerDirty_kept pool_kept_refl cleanupContainers_Containers)
qed

lemma run_kept: "pool_kept (Containers (fst sg)) (Containers (fst (run d ops sg)))"
proof (induction ops arbitrary: sg)
  case Nil
  then show ?case by (simp add: run_def pool_kept_refl)
next
  case (Cons op ops)
  have "pool_kept (Containers (fst sg)) (Containers (fst (step d op sg)))"
    by (rule step_kept)
  moreover have "pool_kept (Containers (fst (step d op sg)))
      (Containers (fst (run d ops (step d op sg))))"
    by (rule Cons.IH)
  ultimately show ?case
    unfolding run_def fold_simps by (rule pool_kept_trans)
qed

text \<open>
  C7. The dirty flag is one-way. Whatever operations run (provisioning, initialisation,
  starting, stopping with or without force, marking, selection, cleanup, handling a request),
  in whatever order and whatever the daemon and the network answer, an entry that is dirty
  is afterwards still in the pool at the same index, with the same id and name, still dirty
  and so not ready, and no selection returns it.
\<close>

theorem dirty_is_one_way:
  "i < length (Containers s) \<and> Dirty (Containers s ! i) \<longrightarrow>
     i < length (Containers (fst (run d ops (s, g))))
     \<and> Dirty (Containers (fst (run d ops (s, g))) ! i)
     \<and> \<not> ready (Containers (fst (run d ops (s, g))) ! i)
     \<and> Id' (Containers (fst (run d ops (s, g))) ! i) = Id' (Containers s ! i)
     \<and> Name (Containers (fst (run d ops (s, g))) ! i) = Name (Containers s ! i)
     \<and> (\<forall>g2 c. fst (getRandomContainer g2 (fst (run d ops (s, g)))) = Inr c \<longrightarrow>
           c \<noteq> Containers (fst (run d ops (s, g))) ! i)"
proof (intro impI)
  let ?s' = "fst (run d ops (s, g))"
  assume a: "i < length (Containers s) \<and> Dirty (Containers s ! i)"
  have "pool_kept (Containers s) (Containers ?s')"
    using run_kept [of "(s, g)" d ops] by simp
  with a have len: "i < length (Containers ?s')"
    and k: "kept (Containers s ! i) (Containers ?s' ! i)"
    by (simp_all add: pool_kept_def)
  from k a have dirty: "Dirty (Containers ?s' ! i)"
    and same: "Id' (Containers ?s' ! i) = Id' (Containers s ! i)"
      "Name (Containers ?s' ! i) = Name (Containers s ! i)"
    by (simp_all add: kept_def)
  have never: "\<forall>g2 c. fst (getRandomContainer g2 ?s') = Inr c \<longrightarrow> c \<noteq> Containers ?s' ! i"
    using getRandomContainer_fst_Inr dirty by blast
  from len dirty same never show "i < length (Containers ?s')
     \<and> Dirty (Containers ?s' ! i)
     \<and> \<not> ready (Containers ?s' ! i)
     \<and> Id' (Containers ?s' ! i) = Id' (Containers s ! i)
     \<and> Name (Containers ?s' ! i) = Name (Containers s ! i)
     \<and> (\<forall>g2 c. fst (getRandomContainer g2 ?s') = Inr c \<longrightarrow> c \<noteq> Containers ?s' ! i)"
    by (simp add: ready_def)
qed

theorem dirty_is_one_way_witness:
  "0 < length (Containers ex_pool) \<and> Dirty (Containers ex_pool ! 0)
   \<and> Dirty (Containers (fst (run ex_daemon
        [StopAll False, StartAll, MarkDirty ''b'', SelectReady, Cleanup] (ex_pool, \<lambda>k. 0))) ! 0)
   \<and> Id' (Containers (fst (run ex_daemon
        [StopAll False, StartAll, MarkDirty ''b'', SelectReady, Cleanup] (ex_pool, \<lambda>k. 0))) ! 0) = ''a''
   \<and> fst (run ex_daemon [StopAll False, StartAll] (ex_pool, \<lambda>k. 0)) =
       ex_pool\<lparr>Containers := [ex_dirty\<lparr>IPAddr := ''ip-a''\<rparr>, ex_ready\<lparr>IPAddr := ''ip-b''\<rparr>],
         DockerCli := [StopReq ''a'', StopReq ''b'', StartReq ''a'', InspectReq ''a'',
           StartReq ''b'', InspectReq ''b'']\<rparr>"
proof -
  have h: "0 < length (Containers ex_pool) \<and> Dirty (Containers ex_pool ! 0)"
    by (simp add: ex_pool_def ex_dirty_def)
  have restart: "fst (run ex_daemon [StopAll False, StartAll] (ex_pool, \<lambda>k. 0)) =
       ex_pool\<lparr>Containers := [ex_dirty\<lparr>IPAddr := ''ip-a''\<rparr>, ex_ready\<lparr>IPAddr := ''ip-b''\<rparr>],
         DockerCli := [StopReq ''a'', StopReq ''b'', StartReq ''a'', InspectReq ''a'',
           StartReq ''b'', InspectReq ''b'']\<rparr>"
    by (simp add: run_def stopContainers_def startContainers_def StopContainer_def
        StartContainer_def ContainerDetails_def ex_daemon_def ex_pool_def ex_dirty_def
        ex_ready_def)
  from dirty_is_one_way [of 0 ex_pool ex_daemon
      "[StopAll False, StartAll, MarkDirty ''b'', SelectReady, Cleanup]" "\<lambda>k. 0"] h restart
  show ?thesis
    by (simp add: ex_pool_def ex_dirty_def)
qed

subsection \<open>The address invariant\<close>

lemma startContainers_loop_inv:
  "startContainers_loop d cs t = (r, cs', t') \<Longrightarrow> list_all addr_ok cs \<Longrightarrow> list_all addr_ok cs'"
proof (induction cs arbitrary: t r cs' t')
  case Nil
  then show ?case by simp
next
  case (Cons c cs)
  have upd: "addr_ok (c\<lparr>IPAddr := a, Started := True\<rparr>)" for a
    by (simp add: addr_ok_def)
  from Cons.prems Cons.IH upd show ?case
    by (auto split: if_splits prod.splits option.splits sum.splits)
qed

lemma stopContainers_loop_inv:
  "stopContainers_loop d hard cs t = (r, cs', t') \<Longrightarrow> list_all addr_ok cs \<Longrightarrow>
   list_all addr_ok cs'"
proof (induction cs arbitrary: t r cs' t')
  case Nil
  then show ?case by simp
next
  case (Cons c cs)
  have upd: "addr_ok (c\<lparr>Started := False, IPAddr := []\<rparr>)"
    by (simp add: addr_ok_def)
  from Cons.prems Cons.IH upd show ?case
    by (auto split: if_splits prod.splits option.splits)
qed

lemma startContainers_inv: "pool_inv s \<Longrightarrow> pool_inv (snd (startContainers d s))"
proof -
  assume inv: "pool_inv s"
  obtain r cs' t' where loop: "startContainers_loop d (Containers s) (DockerCli s) = (r, cs', t')"
    by (metis prod_cases3)
  from startContainers_loop_inv [OF loop] inv have "list_all addr_ok cs'"
    by (simp add: pool_inv_def)
  with loop show ?thesis
    by (simp add: startContainers_def pool_inv_def)
qed

lemma stopContainers_inv: "pool_inv s \<Longrightarrow> pool_inv (snd (stopContainers d hard s))"
proof -
  assume inv: "pool_inv s"
  obtain r cs' t' where loop: "stopContainers_loop d hard (Containers s) (DockerCli s) = (r, cs', t')"
    by (metis prod_cases3)
  from stopContainers_loop_inv [OF loop] inv have "list_all addr_ok cs'"
    by (simp add: pool_inv_def)
  with loop show ?thesis
    by (simp add: stopContainers_def pool_inv_def)
qed

lemma setContainerDirty_untouched:
  "map Started (Containers (setContainerDirty cid s)) = map Started (Containers s)"
  "map IPAddr (Containers (setContainerDirty cid s)) = map IPAddr (Containers s)"
  by (simp_all add: setContainerDirty_def)

lemma map_mark_inv:
  "list_all addr_ok cs \<Longrightarrow>
   list_all addr_ok (map (\<lambda>c. if Id' c = cid then c\<lparr>Dirty := True\<rparr> else c) cs)"
  by (induction cs) (simp_all add: addr_ok_def)

lemma setContainerDirty_inv: "pool_inv s \<Longrightarrow> pool_inv (setContainerDirty cid s)"
  by (simp add: pool_inv_def setContainerDirty_def map_mark_inv)

lemma cleanupContainers_inv: "pool_inv s \<Longrightarrow> pool_inv (snd (cleanupContainers d s))"
  by (simp add: pool_inv_def cleanupContainers_Containers)

lemma createNewContainer_inv: "pool_inv s \<Longrightarrow> pool_inv (snd (createNewContainer d s))"
proof -
  assume inv: "pool_inv s"
  from createNewContainer_Containers [of d s] obtain extra
    where c: "Containers (snd (createNewContainer d s)) = Containers s @ extra"
      and e: "list_all (\<lambda>c. \<not> Started c \<and> \<not> Dirty c \<and> IPAddr c = []) extra"
    by blast
  from e have "list_all addr_ok extra"
    by (simp add: list_all_iff addr_ok_def)
  with inv c show ?thesis
    by (simp add: pool_inv_def)
qed

lemma Init_loop_inv: "pool_inv s \<Longrightarrow> pool_inv (snd (Init_loop d i s))"
proof (induction d i s rule: Init_loop.induct)
  case (1 d i s)
  show ?case
  proof (cases "i < ContainerAmount (Config s)")
    case False
    with "1.prems" show ?thesis by (simp add: Init_loop.simps)
  next
    case True
    obtain r s1 where c: "createNewContainer d s = (r, s1)"
      by (cases "createNewContainer d s")
    with "1.prems" have i1: "pool_inv s1"
      using createNewContainer_inv [of s d] by simp
    show ?thesis
    proof (cases r)
      case (Some e)
      with True c i1 show ?thesis
        by (simp add: Init_loop.simps [of d i s])
    next
      case None
      with "1.IH" [OF True c [symmetric] None i1] True c
      show ?thesis
        by (simp add: Init_loop.simps [of d i s])
    qed
  qed
qed

lemma Init_inv: "pool_inv s \<Longrightarrow> pool_inv (snd (Init d s))"
proof -
  assume inv: "pool_inv s"
  obtain r s1 where loop: "Init_loop d 0 s = (r, s1)"
    by (cases "Init_loop d 0 s")
  with inv have i1: "pool_inv s1"
    using Init_loop_inv [of s d 0] by simp
  then have i2: "pool_inv (snd (startContainers d s1))"
    by (rule startContainers_inv)
  show ?thesis
  proof (cases r)
    case (Some e)
    with loop i1 show ?thesis by (simp add: Init_def)
  next
    case None
    with loop i1 i2 show ?thesis
      by (cases "startContainers d s1") (auto simp: Init_def split: option.splits)
  qed
qed

lemma ServeHTTP_inv:
  assumes "ServeHTTP d n g w r s = Responded w' s' g'" and inv: "pool_inv s"
  shows "pool_inv s'"
proof -
  from ServeHTTP_Responded [OF assms(1)] obtain s1
    where s1: "s1 = s \<or> s1 = snd (startContainers d s)"
      and s': "s' = s1 \<or> (\<exists>cid. s' = setContainerDirty cid s1)"
    by blast
  from s1 inv have "pool_inv s1"
    using startContainers_inv by auto
  with s' show ?thesis
    using setContainerDirty_inv by auto
qed

lemma step_inv: "pool_inv (fst sg) \<Longrightarrow> pool_inv (fst (step d op sg))"
proof (cases sg)
  case (Pair s g)
  assume inv: "pool_inv (fst sg)"
  show ?thesis
  proof (cases op)
    case (Serve n w r)
    show ?thesis
    proof (cases "ServeHTTP d n g w r s")
      case Panic
      with Pair Serve inv show ?thesis by simp
    next
      case (Responded w' s' g')
      with Pair Serve inv ServeHTTP_inv [OF Responded] show ?thesis by simp
    qed
  qed (use inv Pair in \<open>simp_all add: createNewContainer_inv Init_inv startContainers_inv
        stopContainers_inv setContainerDirty_inv cleanupContainers_inv\<close>)
qed

lemma run_inv: "pool_inv (fst sg) \<Longrightarrow> pool_inv (fst (run d ops sg))"
proof (induction ops arbitrary: sg)
  case Nil
  then show ?case by (simp add: run_def)
next
  case (Cons op ops)
  from Cons.prems have "pool_inv (fst (step d op sg))"
    by (rule step_inv)
  then have "pool_inv (fst (run d ops (step d op sg)))"
    by (rule Cons.IH)
  then show ?case
    by (simp add: run_def)
qed

lemma NewReqController_inv: "NewReqController nc conf = Inr s0 \<Longrightarrow> pool_inv s0"
  by (auto simp: NewReqController_def pool_inv_def split: if_splits option.splits)

text \<open>
  C8. The invariant that an entry which is not started has an empty address holds for the
  pool of a new controller, and each entry that a creation adds is not started and has an
  empty address. Every operation keeps the invariant, and so does every run of operations,
  whatever the daemon and the network answer; marking an id dirty changes no started flag and
  no address, and a selection leaves the controller as it is.
\<close>

theorem address_invariant:
  "(pool_inv s \<longleftrightarrow> (\<forall>c\<in>set (Containers s). \<not> Started c \<longrightarrow> IPAddr c = []))
   \<and> (NewReqController nc conf = Inr s0 \<longrightarrow>
        pool_inv s0 \<and> pool_inv (fst (run d ops (s0, g))))
   \<and> (\<exists>extra. Containers (snd (createNewContainer d s)) = Containers s @ extra \<and>
         list_all (\<lambda>c. \<not> Started c \<and> \<not> Dirty c \<and> IPAddr c = []) extra)
   \<and> (pool_inv s \<longrightarrow>
        pool_inv (fst (step d op (s, g))) \<and> pool_inv (fst (run d ops (s, g))))
   \<and> map Started (Containers (setContainerDirty cid s)) = map Started (Containers s)
   \<and> map IPAddr (Containers (setContainerDirty cid s)) = map IPAddr (Containers s)
   \<and> fst (step d SelectReady (s, g)) = s"
proof (intro conjI impI)
  show "pool_inv s \<longleftrightarrow> (\<forall>c\<in>set (Containers s). \<not> Started c \<longrightarrow> IPAddr c = [])"
    by (simp add: pool_inv_def list_all_iff addr_ok_def)
  show "pool_inv s0" if "NewReqController nc conf = Inr s0"
    using that by (rule NewReqController_inv)
  then show "pool_inv (fst (run d ops (s0, g)))" if "NewReqController nc conf = Inr s0"
    using that run_inv [of "(s0, g)" d ops] by simp
  show "\<exists>extra. Containers (snd (createNewContainer d s)) = Containers s @ extra \<and>
         list_all (\<lambda>c. \<not> Started c \<and> \<not> Dirty c \<and> IPAddr c = []) extra"
    by (rule createNewContainer_Containers)
  show "pool_inv (fst (step d op (s, g)))" if "pool_inv s"
    using that step_inv [of "(s, g)" d op] by simp
  show "pool_inv (fst (run d ops (s, g)))" if "pool_inv s"
    using that run_inv [of "(s, g)" d ops] by simp
  show "map Started (Containers (setContainerDirty cid s)) = map Started (Containers s)"
    "map IPAddr (Containers (setContainerDirty cid s)) = map IPAddr (Containers s)"
    by (rule setContainerDirty_untouched)+
  show "fst (step d SelectReady (s, g)) = s"
    by simp
qed

theorem address_invariant_witness:
  "pool_inv ex_dormant
   \<and> NewReqController None ex_config =
       Inr \<lparr>DockerCli = [], Config = ex_config, Containers = [], ContainerNo = 0\<rparr>
   \<and> pool_inv \<lparr>DockerCli = [], Config = ex_config, Containers = [], ContainerNo = 0\<rparr>
   \<and> pool_inv (fst (run ex_daemon [Initialize, StopAll True, Serve ex_net_down ex_writer ex_request]
        (\<lparr>DockerCli = [], Config = ex_config, Containers = [], ContainerNo = 0\<rparr>, \<lambda>k. 0)))
   \<and> pool_inv (fst (step ex_daemon StartAll (ex_dormant, \<lambda>k. 0)))
   \<and> pool_inv (fst (run ex_daemon [StartAll, MarkDirty ''a'', StopAll False]
        (ex_dormant, \<lambda>k. 0)))
   \<and> Containers (fst (run ex_daemon [StartAll, MarkDirty ''a'', StopAll False]
        (ex_dormant, \<lambda>k. 0))) = [ex_stopped_a\<lparr>Dirty := True\<rparr>, ex_stopped_b]"
proof -
  let ?s0 = "\<lparr>DockerCli = [], Config = ex_config, Containers = [], ContainerNo = 0\<rparr>"
  have inv: "pool_inv ex_dormant"
    by (simp add: pool_inv_def addr_ok_def ex_dormant_def ex_stopped_a_def ex_stopped_b_def)
  have new: "NewReqController None ex_config = Inr ?s0"
    by (simp add: NewReqController_def validControllerType_def controllerTypes_def
        StaticController_def ex_config_def)
  have concrete: "Containers (fst (run ex_daemon [StartAll, MarkDirty ''a'', StopAll False]
        (ex_dormant, \<lambda>k. 0))) = [ex_stopped_a\<lparr>Dirty := True\<rparr>, ex_stopped_b]"
    by (simp add: run_def stopContainers_def startContainers_def setContainerDirty_def
        StopContainer_def StartContainer_def ContainerDetails_def ex_daemon_def ex_dormant_def
        ex_stopped_a_def ex_stopped_b_def)
  from address_invariant [of ex_dormant None ex_config ?s0 ex_daemon
      "[Initialize, StopAll True, Serve ex_net_down ex_writer ex_request]" "\<lambda>k. 0" StartAll]
    new
  have fresh: "pool_inv ?s0"
    "pool_inv (fst (run ex_daemon [Initialize, StopAll True, Serve ex_net_down ex_writer ex_request]
        (?s0, \<lambda>k. 0)))"
    by simp_all
  from address_invariant [of ex_dormant None ex_config ?s0 ex_daemon
      "[StartAll, MarkDirty ''a'', StopAll False]" "\<lambda>k. 0" StartAll]
    inv
  have kept: "pool_inv (fst (step ex_daemon StartAll (ex_dormant, \<lambda>k. 0)))"
    "pool_inv (fst (run ex_daemon [StartAll, MarkDirty ''a'', StopAll False]
        (ex_dormant, \<lambda>k. 0)))"
    by simp_all
  from inv new fresh kept concrete show ?thesis
    by (intro conjI)
qed

subsection \<open>Copying the response\<close>

lemma Values_append_value:
  "Values (append_value k v h) k' = (if k' = k then Values h k @ [v] else Values h k')"
  by (induction h) (auto simp: Values_def)

lemma Values_Add:
  "Values (Add canon h k v) k' = (if k' = canon k then Values h k' @ [v] else Values h k')"
  by (simp add: Add_def Values_append_value)

lemma Values_copyHeader_values:
  "Values (copyHeader_values canon dst k vv) k' =
     (if k' = canon k then Values dst k' @ vv else Values dst k')"
  by (induction vv arbitrary: dst) (simp_all add: Values_Add)

lemma Values_copyHeader:
  "Values (copyHeader canon dst src) k' =
     Values dst k' @ concat (map snd (filter (\<lambda>(k, vv). canon k = k') src))"
  by (induction src arbitrary: dst) (auto simp: Values_copyHeader_values)

lemma count_list_concat_mem:
  "(k, vv) \<in> set src \<Longrightarrow> P (k, vv) \<Longrightarrow>
   count_list vv v \<le> count_list (concat (map snd (filter P src))) v"
  by (induction src) auto

lemma count_Values_le:
  "count_list (Values src k) v \<le>
   count_list (concat (map snd (filter (\<lambda>(k', vv). canon k' = canon k) src))) v"
proof (cases "map_of src k")
  case None
  then show ?thesis by (simp add: Values_def)
next
  case (Some vv)
  then have "(k, vv) \<in> set src" by (rule map_of_SomeD)
  then have "count_list vv v \<le>
      count_list (concat (map snd (filter (\<lambda>(k', vv). canon k' = canon k) src))) v"
    by (rule count_list_concat_mem) simp
  with Some show ?thesis by (simp add: Values_def)
qed

text \<open>
  C10. \<open>copyHeader\<close> adds every value of the backend's header to the outbound header: the values
  under a key afterwards are the values that were there, followed by the backend's values
  whose key has that canonical form, in the order visited. So nothing is overwritten, and a
  value occurs under the canonical form of its key at least as often as under its key in
  the backend's header; for a key in canonical form (as are the keys of a response read by
  the HTTP client) that is the same key. When the dispatch succeeds the handler copies the
  header, then writes the backend's status code, then the body, and leaves the pool as it
  was at the selection.
\<close>

theorem copyHeader_accumulates:
  "Values (copyHeader canon dst src) k' =
     Values dst k' @ concat (map snd (filter (\<lambda>(k, vv). canon k = k') src))
   \<and> count_list (Values src k) v \<le> count_list (Values (copyHeader canon dst src) (canon k)) v
   \<and> count_list (Values dst k') v \<le> count_list (Values (copyHeader canon dst src) k') v
   \<and> (canon k = k \<longrightarrow>
        count_list (Values src k) v \<le> count_list (Values (copyHeader canon dst src) k) v)
   \<and> (ServeHTTP_wake d s = WakeDone s1 \<and> getRandomContainer g s1 = (Inr chosen, g') \<and>
       NewRequest n (Method r)
         ((ReqURL r)\<lparr>Host := IPAddr chosen @ '':'' @ itoa (ContainerPort (Config s1))\<rparr>)
         (ReqBody r) = Inr proxyReq \<and>
       Do n (proxyReq\<lparr>ReqHeader := ReqHeader r\<rparr>) = Inr res \<longrightarrow>
         ServeHTTP d n g w r s =
           Responded
             (Write (ResBody res)
                (WriteHeader (StatusCode res)
                   (w\<lparr>wHeader := copyHeader (CanonicalMIMEHeaderKey n) (wHeader w)
                                    (ResHeader res)\<rparr>)))
             s1 g'
         \<and> (wStatus w = None \<longrightarrow>
              Write (ResBody res)
                (WriteHeader (StatusCode res)
                   (w\<lparr>wHeader := copyHeader (CanonicalMIMEHeaderKey n) (wHeader w)
                                    (ResHeader res)\<rparr>)) =
              \<lparr>wHeader = copyHeader (CanonicalMIMEHeaderKey n) (wHeader w) (ResHeader res),
               wStatus = Some (StatusCode res), wBody = wBody w @ ResBody res\<rparr>))"
proof (intro conjI impI)
  show all: "Values (copyHeader canon dst src) k' =
     Values dst k' @ concat (map snd (filter (\<lambda>(k, vv). canon k = k') src))"
    by (rule Values_copyHeader)
  show le: "count_list (Values src k) v \<le>
      count_list (Values (copyHeader canon dst src) (canon k)) v"
    using count_Values_le [of src k v canon]
    by (simp add: Values_copyHeader)
  show "count_list (Values dst k') v \<le> count_list (Values (copyHeader canon dst src) k') v"
    by (simp add: Values_copyHeader)
  show "count_list (Values src k) v \<le> count_list (Values (copyHeader canon dst src) k) v"
    if "canon k = k"
    using le that by simp
next
  assume a: "ServeHTTP_wake d s = WakeDone s1 \<and> getRandomContainer g s1 = (Inr chosen, g') \<and>
       NewRequest n (Method r)
         ((ReqURL r)\<lparr>Host := IPAddr chosen @ '':'' @ itoa (ContainerPort (Config s1))\<rparr>)
         (ReqBody r) = Inr proxyReq \<and>
       Do n (proxyReq\<lparr>ReqHeader := ReqHeader r\<rparr>) = Inr res"
  then show "ServeHTTP d n g w r s =
           Responded
             (Write (ResBody res)
                (WriteHeader (StatusCode res)
                   (w\<lparr>wHeader := copyHeader (CanonicalMIMEHeaderKey n) (wHeader w)
                                    (ResHeader res)\<rparr>)))
             s1 g'"
    by (simp add: ServeHTTP_def ServeHTTP_proxy_def)
next
  assume "wStatus w = None"
  then show "Write (ResBody res)
                (WriteHeader (StatusCode res)
                   (w\<lparr>wHeader := copyHeader (CanonicalMIMEHeaderKey n) (wHeader w)
                                    (ResHeader res)\<rparr>)) =
              \<lparr>wHeader = copyHeader (CanonicalMIMEHeaderKey n) (wHeader w) (ResHeader res),
               wStatus = Some (StatusCode res), wBody = wBody w @ ResBody res\<rparr>"
    by (simp add: Write_def WriteHeader_def)
qed

theorem copyHeader_accumulates_witness:
  "ServeHTTP_wake ex_daemon ex_pool3 = WakeDone ex_pool3
   \<and> getRandomContainer (\<lambda>k. 1) ex_pool3 = (Inr ex_ready, \<lambda>k. 1)
   \<and> wStatus ex_writer_cookie = None
   \<and> ServeHTTP ex_daemon ex_net_up (\<lambda>k. 1) ex_writer_cookie ex_request ex_pool3 =
       Responded
         \<lparr>wHeader = [(''Set-Cookie'', [''z=0'', ''a=1'', ''b=2'']),
                     (''Content-Type'', [''text/html''])],
          wStatus = Some 404, wBody = ''not found''\<rparr>
         ex_pool3 (\<lambda>k. 1)
   \<and> count_list (Values (ResHeader ex_response) ''Set-Cookie'') ''a=1'' = 1
   \<and> 1 \<le> count_list (Values (copyHeader (\<lambda>k. k) (wHeader ex_writer_cookie)
            (ResHeader ex_response)) ''Set-Cookie'') ''a=1''"
proof -
  let ?url = "(ReqURL ex_request)
               \<lparr>Host := IPAddr ex_ready @ '':'' @ itoa (ContainerPort (Config ex_pool3))\<rparr>"
  let ?p = "\<lparr>Method = Method ex_request, ReqURL = ?url, ReqHeader = [],
             ReqBody = ReqBody ex_request\<rparr>"
  have wake: "ServeHTTP_wake ex_daemon ex_pool3 = WakeDone ex_pool3"
    by (simp add: ServeHTTP_wake_def ex_pool3_def ex_config_def DynamicController_def)
  have sel: "getRandomContainer (\<lambda>k. 1) ex_pool3 = (Inr ex_ready, \<lambda>k. 1)"
    by (simp add: getRandomContainer_def getRandomContainer_probe.simps [of _ _ 1] Intn_def
        ex_pool3_def ex_config_def ex_ready_def ex_dirty_def ex_other_def)
  have req: "NewRequest ex_net_up (Method ex_request) ?url (ReqBody ex_request) = Inr ?p"
    by (simp add: ex_net_up_def)
  have ok: "Do ex_net_up (?p\<lparr>ReqHeader := ReqHeader ex_request\<rparr>) = Inr ex_response"
    by (simp add: ex_net_up_def)
  have st: "wStatus ex_writer_cookie = None"
    by (simp add: ex_writer_cookie_def)
  have canon: "CanonicalMIMEHeaderKey ex_net_up = (\<lambda>k. k)"
    by (simp add: ex_net_up_def)
  have hdr: "copyHeader (\<lambda>k. k) (wHeader ex_writer_cookie) (ResHeader ex_response) =
      [(''Set-Cookie'', [''z=0'', ''a=1'', ''b=2'']), (''Content-Type'', [''text/html''])]"
    by (simp add: Add_def ex_writer_cookie_def ex_response_def)
  have src: "count_list (Values (ResHeader ex_response) ''Set-Cookie'') ''a=1'' = 1"
    by (simp add: Values_def ex_response_def)
  note th = copyHeader_accumulates
    [of "\<lambda>k. k" "wHeader ex_writer_cookie" "ResHeader ex_response" "''Set-Cookie''"
      "''Set-Cookie''" "''a=1''" ex_daemon ex_pool3 ex_pool3 "\<lambda>k. 1" ex_ready "\<lambda>k. 1"
      ex_net_up ex_request ?p ex_response ex_writer_cookie]
  from th wake sel req ok st canon hdr
  have out: "ServeHTTP ex_daemon ex_net_up (\<lambda>k. 1) ex_writer_cookie ex_request ex_pool3 =
       Responded
         \<lparr>wHeader = [(''Set-Cookie'', [''z=0'', ''a=1'', ''b=2'']),
                     (''Content-Type'', [''text/html''])],
          wStatus = Some 404, wBody = ''not found''\<rparr>
         ex_pool3 (\<lambda>k. 1)"
    by (simp add: ex_response_def ex_writer_cookie_def)
  from th [THEN conjunct2, THEN conjunct1] src
  have cnt: "1 \<le> count_list (Values (copyHeader (\<lambda>k. k) (wHeader ex_writer_cookie)
            (ResHeader ex_response)) ''Set-Cookie'') ''a=1''"
    by simp
  from wake sel st out src cnt show ?thesis
    by (intro conjI)
qed

subsection \<open>Provisioning\<close>









end
